theory Spec2Isabelle
  imports Complex_Main
begin

section \<open>The data model\<close>

text \<open>
  The program is one script, \<^verbatim>\<open>index.js\<close>, that loads a JSON document of saints and their
  relationships, hands it to a force-layout library and wires event handlers to the
  elements the library creates. The source file holds the script twice: a second, shorter
  variant (no link tooltips, a link opacity of 0.6) starts at line 323. The model follows
  the first, lines 1 to 322.

  JavaScript values are modelled as follows.
  \<^item> A number that is a radius, a coordinate or an opacity is a \<^typ>\<open>real\<close>: the data model
    makes the radius numeric, and on numbers \<^verbatim>\<open>Math.max\<close> and \<^verbatim>\<open>Math.min\<close>
    return one of their arguments. A record without a numeric \<^verbatim>\<open>size\<close> (whose arithmetic
    gives \<^verbatim>\<open>NaN\<close>) is outside the model. A year or a pointer coordinate is an
    \<^typ>\<open>int\<close>, printed as its decimal numeral.
  \<^item> A string is a \<^typ>\<open>string\<close>; text outside ASCII is held as its UTF-8 bytes.
  \<^item> \<^verbatim>\<open>null\<close> and an absent property are \<^const>\<open>None\<close>.
  \<^item> An object reference is an index: a node is named by its place in
    \<^verbatim>\<open>saintsData.nodes\<close>, a link by its place in \<^verbatim>\<open>saintsData.links\<close>, so that a write
    to a node is seen through every link and element that refers to it.

  The layout library is taken to be loaded, and \<^verbatim>\<open>saintsData.nodes\<close> and
  \<^verbatim>\<open>saintsData.links\<close>, where the data file has them, to be arrays of records whose
  identifiers are strings. A record may lack its \<^verbatim>\<open>name\<close>, the one property the script
  calls a method of (line 84); a name that is present is a string.
\<close>

record node =
  node_id :: string
  name :: "string option"
  node_type :: string
  node_size :: real
  feastDay :: string
  birthYear :: int
  deathYear :: int
  location :: string
  patronage :: string
  description :: string
  node_x :: real
  node_y :: real
  node_fx :: "real option"
  node_fy :: "real option"

text \<open>
  \<^const>\<open>node_x\<close> and \<^const>\<open>node_y\<close> are the current position: the layout engine gives every
  node one when the simulation is created, so a node of the model always carries one.
  \<^const>\<open>node_fx\<close> and \<^const>\<open>node_fy\<close> are the pinned position, \<^verbatim>\<open>null\<close> when the node is free.

  A link of the data file names its two saints by identifier; the layout library replaces
  the identifiers by references to the node objects when the link force is initialised.
\<close>

record raw_link =
  source_id :: string
  target_id :: string
  raw_type :: string

record link =
  source :: nat
  target :: nat
  link_type :: string

text \<open>
  The parsed data file. \<^verbatim>\<open>saintsData.nodes\<close> or \<^verbatim>\<open>saintsData.links\<close> may be absent: the
  script reads both without a check. A parsed value that has no \<^verbatim>\<open>nodes\<close> to read the
  length of (\<^verbatim>\<open>null\<close>, a number, a string, an array, an object whose \<^verbatim>\<open>nodes\<close> is
  \<^verbatim>\<open>null\<close>) is a document without nodes: line 29 throws on each of them alike.
\<close>

record document =
  doc_nodes :: "node list option"
  doc_links :: "raw_link list option"

text \<open>What \<^verbatim>\<open>fetch\<close> and \<^verbatim>\<open>response.json()\<close> give: either promise may reject.\<close>

datatype fetched = FetchFailed | ParseFailed | Loaded document

datatype error = FetchError | JsonSyntaxError | TypeError | NodeNotFound string

text \<open>
  The category tags: the keys of \<^verbatim>\<open>colorMap\<close>, which the filter buttons pass to
  \<^verbatim>\<open>filterByType\<close>. A node's own \<^verbatim>\<open>type\<close> is whatever string the data file holds.
\<close>

datatype category = Apostle | Doctor | Founder | Martyr | Mystic

fun category_name :: "category \<Rightarrow> string" where
  "category_name Apostle = ''apostle''"
| "category_name Doctor = ''doctor''"
| "category_name Founder = ''founder''"
| "category_name Martyr = ''martyr''"
| "category_name Mystic = ''mystic''"

definition colorMap :: "string \<Rightarrow> string option" where
  "colorMap = map_of
     [(''apostle'', ''#ff6b6b''),
      (''doctor'', ''#4ecdc4''),
      (''founder'', ''#95e1d3''),
      (''martyr'', ''#ffd93d''),
      (''mystic'', ''#a8e6cf'')]"

definition width :: real where
  "width = 1200"

definition height :: real where
  "height = 700"

subsection \<open>The page\<close>

text \<open>
  The elements the script creates, each with the datum bound to it (a reference) and the
  attributes and styles the script writes. An attribute or style nobody has set is
  \<^const>\<open>None\<close>.
\<close>

record circle_el =
  circle_datum :: nat
  circle_class :: string
  circle_r :: real
  circle_fill :: "string option"
  circle_cx :: "real option"
  circle_cy :: "real option"
  circle_opacity :: "real option"

record line_el =
  line_datum :: nat
  line_class :: string
  stroke_width :: real
  line_cursor :: string
  line_stroke :: "string option"
  line_x1 :: "real option"
  line_y1 :: "real option"
  line_x2 :: "real option"
  line_y2 :: "real option"
  line_opacity :: "real option"

record text_el =
  label_datum :: nat
  label_class :: string
  label_text :: string
  label_dy :: real
  label_x :: "real option"
  label_y :: "real option"
  label_opacity :: "real option"

record tooltip_el =
  tip_opacity :: "real option"
  tip_html :: string
  tip_left :: "string option"
  tip_top :: "string option"

record button_el =
  onclick :: "string option"
  active_class :: bool

text \<open>
  The state of the page: the script's globals, the elements of the document it touches
  and the state the library keeps for it (the simulation's alpha target, whether its
  timer runs and whether the tick listener of line 96 is registered; the drag gestures in
  progress, each by its subject). \<open>svg\<close> says that the \<^verbatim>\<open>svg\<close> element is in the
  container \<^verbatim>\<open>#network\<close>; \<open>network_html\<close> is the markup assigned to the container,
  if any was. \<^verbatim>\<open>link\<close>, \<^verbatim>\<open>node\<close> and \<^verbatim>\<open>label\<close> are the three selections: the page lists
  the elements of each that are in the document. An element that has left the document
  is shown nowhere and no pointer event reaches it, and the page does not follow it; a
  selection that has not been assigned lists nothing.
\<close>

record page =
  nodes :: "node list"
  links :: "link list"
  svg :: bool
  network_html :: "string option"
  link_sel :: "line_el list"
  node_sel :: "circle_el list"
  label_sel :: "text_el list"
  tooltip :: tooltip_el
  currentFilter :: string
  buttons :: "button_el list"
  alphaTarget :: real
  running :: bool
  tick_listener :: bool
  gestures :: "nat list"

text \<open>The page as the HTML gives it, before \<^verbatim>\<open>init\<close> runs (lines 5 to 7).\<close>

definition start :: "button_el list \<Rightarrow> tooltip_el \<Rightarrow> page" where
  "start bs tt =
     \<lparr>nodes = [], links = [], svg = False, network_html = None,
      link_sel = [], node_sel = [], label_sel = [], tooltip = tt,
      currentFilter = ''all'', buttons = bs, alphaTarget = 0, running = False,
      tick_listener = False, gestures = []\<rparr>"

section \<open>Position clamp and drag\<close>

text \<open>
  The body of the \<^verbatim>\<open>forEach\<close> of \<^verbatim>\<open>updatePositions\<close> (lines 246 to 249).
\<close>

definition constrain :: "node \<Rightarrow> node" where
  "constrain d =
     d\<lparr>node_x := max (node_size d) (min (width - node_size d) (node_x d)),
       node_y := max (node_size d) (min (height - node_size d) (node_y d))\<rparr>"

definition updatePositions :: "page \<Rightarrow> page" where
  "updatePositions p =
     (let ns = map constrain (nodes p) in
      p\<lparr>nodes := ns,
        link_sel := map (\<lambda>l. l\<lparr>line_x1 := Some (node_x (ns ! source (links p ! line_datum l))),
                                 line_y1 := Some (node_y (ns ! source (links p ! line_datum l))),
                                 line_x2 := Some (node_x (ns ! target (links p ! line_datum l))),
                                 line_y2 := Some (node_y (ns ! target (links p ! line_datum l)))\<rparr>)
                        (link_sel p),
        node_sel := map (\<lambda>c. c\<lparr>circle_cx := Some (node_x (ns ! circle_datum c)),
                                 circle_cy := Some (node_y (ns ! circle_datum c))\<rparr>)
                        (node_sel p),
        label_sel := map (\<lambda>t. t\<lparr>label_x := Some (node_x (ns ! label_datum t)),
                                  label_y := Some (node_y (ns ! label_datum t))\<rparr>)
                         (label_sel p)\<rparr>)"

text \<open>
  A drag event as the drag behaviour hands it to the three listeners: the subject (the
  node under the pointer), the number of other gestures in progress and the pointer.
\<close>

record drag_event =
  subject :: nat
  active :: nat
  event_x :: real
  event_y :: real

definition dragstarted :: "drag_event \<Rightarrow> page \<Rightarrow> page" where
  "dragstarted ev p =
     (let p1 = (if active ev = 0 then p\<lparr>alphaTarget := 3 / 10, running := True\<rparr> else p);
          d = nodes p1 ! subject ev
      in p1\<lparr>nodes := (nodes p1)[subject ev :=
                d\<lparr>node_fx := Some (node_x d), node_fy := Some (node_y d)\<rparr>]\<rparr>)"

definition dragged :: "drag_event \<Rightarrow> page \<Rightarrow> page" where
  "dragged ev p =
     (let d = nodes p ! subject ev;
          radius = node_size d
      in p\<lparr>nodes := (nodes p)[subject ev :=
               d\<lparr>node_fx := Some (max radius (min (width - radius) (event_x ev))),
                 node_fy := Some (max radius (min (height - radius) (event_y ev)))\<rparr>]\<rparr>)"

definition dragended :: "drag_event \<Rightarrow> page \<Rightarrow> page" where
  "dragended ev p =
     (let p1 = (if active ev = 0 then p\<lparr>alphaTarget := 0\<rparr> else p);
          d = nodes p1 ! subject ev
      in p1\<lparr>nodes := (nodes p1)[subject ev := d\<lparr>node_fx := None, node_fy := None\<rparr>]\<rparr>)"

section \<open>Loading the data and building the visualization\<close>

text \<open>
  \<^verbatim>\<open>d3.forceLink(links).id(d => d.id)\<close>, as the layout library documents it: when the force
  is initialised it builds a map from identifier to node (a later node with the same
  identifier replaces an earlier one) and replaces each link's source and target
  identifier by the node found, in the order of the links, source before target. An
  identifier that names no node makes it throw.
\<close>

fun find_node :: "node list \<Rightarrow> string \<Rightarrow> nat option" where
  "find_node [] i = None"
| "find_node (d # ds) i =
     (case find_node ds i of
        Some k \<Rightarrow> Some (Suc k)
      | None \<Rightarrow> if node_id d = i then Some 0 else None)"

fun forceLink :: "node list \<Rightarrow> raw_link list \<Rightarrow> error + link list" where
  "forceLink ns [] = Inr []"
| "forceLink ns (l # ls) =
     (case find_node ns (source_id l) of
        None \<Rightarrow> Inl (NodeNotFound (source_id l))
      | Some s \<Rightarrow>
          (case find_node ns (target_id l) of
             None \<Rightarrow> Inl (NodeNotFound (target_id l))
           | Some t \<Rightarrow>
               (case forceLink ns ls of
                  Inl e \<Rightarrow> Inl e
                | Inr ls' \<Rightarrow> Inr (\<lparr>source = s, target = t, link_type = raw_type l\<rparr> # ls'))))"

text \<open>
  \<^verbatim>\<open>String.prototype.replace\<close> with a string pattern: the first occurrence only.
\<close>

fun replace :: "string \<Rightarrow> string \<Rightarrow> string \<Rightarrow> string" where
  "replace pat rep [] = (if pat = [] then rep else [])"
| "replace pat rep (c # cs) =
     (if take (length pat) (c # cs) = pat then rep @ drop (length pat) (c # cs)
      else c # replace pat rep cs)"

text \<open>
  \<^verbatim>\<open>setupVisualization\<close> (lines 39 to 97). \<^verbatim>\<open>selectAll(...).data(xs).join(...)\<close> on the
  fresh group creates one element for each datum of \<^verbatim>\<open>xs\<close>, in order, bound to it.
  \<^verbatim>\<open>d3.forceSimulation\<close> starts the simulation's timer when it creates the simulation.

  The function throws in two places, and the result then carries the page as it was at
  that moment.
  \<^item> The link force (line 52) throws on a link end that names no node: the \<^verbatim>\<open>svg\<close>
    element is appended and the timer runs, and nothing else has been created.
  \<^item> \<^verbatim>\<open>d.name.replace\<close> (line 84) throws a \<^verbatim>\<open>TypeError\<close> on the first record without a
    name: the lines and the circles have been created by then and \<^verbatim>\<open>link\<close> and \<^verbatim>\<open>node\<close>
    assigned; \<^verbatim>\<open>label\<close> is not assigned (the text elements that the join of line 82 has
    created are in the \<^verbatim>\<open>svg\<close> element and in no selection of the script), and lines 88
    to 96 do not run, so that no tick listener is registered.
\<close>

definition link_width :: "string \<Rightarrow> real" where
  "link_width ty = (if ty = ''mentor'' then 3 else if ty = ''order'' then 2 else 1)"

definition link_width_hover :: "string \<Rightarrow> real" where
  "link_width_hover ty = (if ty = ''mentor'' then 5 else if ty = ''order'' then 4 else 3)"

definition new_line :: "nat \<times> link \<Rightarrow> line_el" where
  "new_line = (\<lambda>(i, d).
     \<lparr>line_datum = i, line_class = ''link'', stroke_width = link_width (link_type d),
      line_cursor = ''pointer'', line_stroke = None, line_x1 = None, line_y1 = None,
      line_x2 = None, line_y2 = None, line_opacity = None\<rparr>)"

definition new_circle :: "nat \<times> node \<Rightarrow> circle_el" where
  "new_circle = (\<lambda>(i, d).
     \<lparr>circle_datum = i, circle_class = ''node'', circle_r = node_size d,
      circle_fill = colorMap (node_type d), circle_cx = None, circle_cy = None,
      circle_opacity = None\<rparr>)"

definition new_label :: "nat \<times> node \<Rightarrow> text_el option" where
  "new_label = (\<lambda>(i, d).
     case name d of
       None \<Rightarrow> None
     | Some n \<Rightarrow>
         Some \<lparr>label_datum = i, label_class = ''node-label'',
               label_text = replace ''Blessed '' [] (replace ''St. '' [] n),
               label_dy = node_size d + 15, label_x = None, label_y = None,
               label_opacity = None\<rparr>)"

definition setupVisualization :: "raw_link list \<Rightarrow> page \<Rightarrow> (error \<times> page) + page" where
  "setupVisualization rls p =
     (let p1 = p\<lparr>svg := True, running := True\<rparr> in
      case forceLink (nodes p1) rls of
        Inl e \<Rightarrow> Inl (e, p1)
      | Inr ls \<Rightarrow>
          (let p2 = p1\<lparr>links := ls,
                       link_sel := map new_line (enumerate 0 ls),
                       node_sel := map new_circle (enumerate 0 (nodes p1))\<rparr>
           in case those (map new_label (enumerate 0 (nodes p2))) of
                None \<Rightarrow> Inl (TypeError, p2)
              | Some ts \<Rightarrow> Inr (p2\<lparr>label_sel := ts, tick_listener := True\<rparr>)))"

text \<open>
  \<^verbatim>\<open>init\<close> (lines 23 to 37). The \<^verbatim>\<open>try\<close> block is \<^term>\<open>try_init\<close>: the fetch, the parse,
  the two reads \<^verbatim>\<open>saintsData.nodes.length\<close> and \<^verbatim>\<open>saintsData.links.length\<close> of the log line
  (a \<^verbatim>\<open>TypeError\<close> on an absent property) and \<^verbatim>\<open>setupVisualization\<close>. The \<^verbatim>\<open>catch\<close>
  block assigns the container's \<^verbatim>\<open>innerHTML\<close> (\<^term>\<open>set_innerHTML\<close>), which replaces
  what the container held: the \<^verbatim>\<open>svg\<close> element, if it was appended, leaves the document,
  and with it every line, circle and text element in it. The simulation, if it was
  created, is not stopped. The variables \<^verbatim>\<open>link\<close> and \<^verbatim>\<open>node\<close>, if they were assigned,
  still refer to the elements removed; these are outside the document from then on, and
  the page lists none of them.
\<close>

definition error_message :: string where
  "error_message =
     ''<p style='' @ [CHR 0x22] @ ''text-align: center; color: #8B4513;'' @ [CHR 0x22] @
     ''>Error loading saints data. Please check that all files are present.</p>''"

definition try_init :: "fetched \<Rightarrow> page \<Rightarrow> (error \<times> page) + page" where
  "try_init r p =
     (case r of
        FetchFailed \<Rightarrow> Inl (FetchError, p)
      | ParseFailed \<Rightarrow> Inl (JsonSyntaxError, p)
      | Loaded doc \<Rightarrow>
          (case doc_nodes doc of
             None \<Rightarrow> Inl (TypeError, p)
           | Some ns \<Rightarrow>
               (case doc_links doc of
                  None \<Rightarrow> Inl (TypeError, p\<lparr>nodes := ns\<rparr>)
                | Some rls \<Rightarrow> setupVisualization rls (p\<lparr>nodes := ns\<rparr>))))"

definition set_innerHTML :: "string \<Rightarrow> page \<Rightarrow> page" where
  "set_innerHTML h p =
     p\<lparr>network_html := Some h, svg := False, link_sel := [], node_sel := [], label_sel := []\<rparr>"

definition init :: "fetched \<Rightarrow> page \<Rightarrow> page" where
  "init r p =
     (case try_init r p of
        Inr p' \<Rightarrow> p'
      | Inl (e, p') \<Rightarrow> set_innerHTML error_message p')"

section \<open>Tooltips\<close>

text \<open>
  The decimal numeral of an integer, as a template literal or \<^verbatim>\<open>+\<close> with a string prints a
  whole number.
\<close>

fun digits :: "nat \<Rightarrow> string" where
  "digits n =
     (if n < 10 then [''0123456789'' ! n]
      else digits (n div 10) @ [''0123456789'' ! (n mod 10)])"

definition ToString :: "int \<Rightarrow> string" where
  "ToString n = (if n < 0 then ''-'' @ digits (nat (- n)) else digits (nat n))"

record mouse_event =
  pageX :: int
  pageY :: int

text \<open>
  \<^verbatim>\<open>handleMouseOver\<close> (lines 99 to 124); \<open>el\<close> is the place of the hovered circle in the
  node selection. A transition is modelled by the value it ends on.
\<close>

definition year_display :: "int \<Rightarrow> string" where
  "year_display yr = (if yr < 0 then ToString \<bar>yr\<bar> @ '' BC'' else ToString yr @ '' AD'')"

text \<open>A template literal prints a property that is absent as \<^verbatim>\<open>undefined\<close>.\<close>

definition name_text :: "node \<Rightarrow> string" where
  "name_text d = (case name d of None \<Rightarrow> ''undefined'' | Some n \<Rightarrow> n)"

definition node_html :: "node \<Rightarrow> string" where
  "node_html d =
     (let lifespan = deathYear d - birthYear d;
          birthDisplay = year_display (birthYear d);
          deathDisplay = year_display (deathYear d)
      in [CHR 0x0A] @ ''            <h3>'' @ name_text d @ ''</h3>'' @
         [CHR 0x0A] @ ''            <p class='' @ [CHR 0x22] @ ''feast-day'' @ [CHR 0x22] @
           ''>Feast Day: '' @ feastDay d @ ''</p>'' @
         [CHR 0x0A] @ ''            <p><strong>Life:</strong> '' @ birthDisplay @ '' - '' @
           deathDisplay @ '' ('' @ ToString lifespan @ '' years)</p>'' @
         [CHR 0x0A] @ ''            <p><strong>Location:</strong> '' @ location d @ ''</p>'' @
         [CHR 0x0A] @ ''            <p><strong>Patronage:</strong> '' @ patronage d @ ''</p>'' @
         [CHR 0x0A] @ ''            <p><em>'' @ description d @ ''</em></p>'' @
         [CHR 0x0A] @ ''        '')"

definition handleMouseOver :: "nat \<Rightarrow> mouse_event \<Rightarrow> node \<Rightarrow> page \<Rightarrow> page" where
  "handleMouseOver el ev d p =
     p\<lparr>node_sel := (node_sel p)[el := (node_sel p ! el)
           \<lparr>circle_r := node_size (nodes p ! circle_datum (node_sel p ! el)) * (13 / 10)\<rparr>],
       tooltip := (tooltip p)
           \<lparr>tip_opacity := Some 1,
            tip_html := node_html d,
            tip_left := Some (ToString (pageX ev + 10) @ ''px''),
            tip_top := Some (ToString (pageY ev - 10) @ ''px'')\<rparr>\<rparr>"

definition handleMouseOut :: "nat \<Rightarrow> mouse_event \<Rightarrow> node \<Rightarrow> page \<Rightarrow> page" where
  "handleMouseOut el ev d p =
     p\<lparr>node_sel := (node_sel p)[el := (node_sel p ! el)
           \<lparr>circle_r := node_size (nodes p ! circle_datum (node_sel p ! el))\<rparr>],
       tooltip := (tooltip p)\<lparr>tip_opacity := Some 0\<rparr>\<rparr>"

text \<open>
  Reading a property of an object literal and \<^verbatim>\<open>||\<close>: an absent key gives
  \<^verbatim>\<open>undefined\<close>, and \<^verbatim>\<open>undefined\<close> and the empty string are the falsy values here. An
  object literal also answers to the names every object inherits (\<^verbatim>\<open>constructor\<close>,
  \<^verbatim>\<open>toString\<close> and the like). None of them holds a hyphen, so no key of the detail table
  is one; a node type or link type of the data file that is one is outside the model.
\<close>

definition js_or :: "string option \<Rightarrow> string option \<Rightarrow> string option" where
  "js_or a b = (case a of None \<Rightarrow> b | Some v \<Rightarrow> if v = [] then b else a)"

definition or_else :: "string option \<Rightarrow> string \<Rightarrow> string" where
  "or_else a s = (case a of None \<Rightarrow> s | Some v \<Rightarrow> if v = [] then s else v)"

definition details :: "(string \<times> string) list" where
  "details =
     [
      (''peter-paul'',
       ''Both apostles who worked together in the early Church''),
      (''peter-john'',
       ''Fellow apostles and close companions of Jesus''),
      (''paul-john'',
       ''Collaborated in spreading Christianity''),
      (''peter-stephen'',
       ''Peter likely ordained Stephen as first deacon''),
      (''augustine-benedict'',
       ''Augustine's writings influenced Benedict's Rule''),
      (''augustine-aquinas'',
       ''Aquinas built upon Augustine's theological foundation''),
      (''paul-augustine'',
       ''Augustine was deeply influenced by Paul's letters''),
      (''benedict-francis'',
       ''Francis was inspired by monastic tradition''),
      (''francis-dominic'',
       ''Contemporary founders with different approaches''),
      (''francis-anthony'',
       ''Anthony joined the Franciscan order under Francis''),
      (''francis-clare'',
       ''Francis guided Clare in founding the Poor Clares''),
      (''dominic-aquinas'',
       ''Aquinas was a Dominican friar''),
      (''ignatius-teresa-avila'',
       ''Counter-Reformation reformers and mystics''),
      (''teresa-avila-john-cross'',
       ''Teresa guided John in mystical theology''),
      (''augustine-jerome'',
       ''Corresponded frequently about theological matters''),
      (''aquinas-catherine-siena'',
       ''Catherine was influenced by Dominican theology''),
      (''teresa-avila-therese'',
       ''Th'' @ [CHR 0xC3] @ [CHR 0xA9] @ ''r'' @ [CHR 0xC3] @ [CHR 0xA8] @ ''se was inspired by Teresa's writings''),
      (''therese-padre-pio'',
       ''Both promoted devotion to the Sacred Heart''),
      (''francis-padre-pio'',
       ''Padre Pio was a Franciscan friar''),
      (''lawrence-cecilia'',
       ''Both Roman martyrs of the 3rd century''),
      (''patrick-benedict'',
       ''Patrick's missionary work influenced monasticism''),
      (''mary-john'',
       ''Mary entrusted to John's care at the crucifixion''),
      (''mary-joseph'',
       ''Holy Family - married and raised Jesus together''),
      (''mary-john-baptist'',
       ''John the Baptist announced Jesus' coming to Mary''),
      (''mary-mary-magdalene'',
       ''Both witnessed Jesus' crucifixion and resurrection''),
      (''joseph-john-baptist'',
       ''Both central figures in Jesus' early life''),
      (''john-baptist-peter'',
       ''John baptized Jesus, Peter became first Pope''),
      (''john-baptist-john'',
       ''John the Baptist was John the Apostle's namesake''),
      (''mary-magdalene-peter'',
       ''First witnesses to the resurrection''),
      (''mary-magdalene-paul'',
       ''Both experienced dramatic conversions''),
      (''monica-augustine'',
       ''Monica prayed for Augustine's conversion for years''),
      (''martin-tours-augustine'',
       ''Both bishops and theologians of the 4th century''),
      (''martin-tours-benedict'',
       ''Martin's monasticism influenced Benedict''),
      (''basil-augustine'',
       ''Both Church Fathers and bishops''),
      (''basil-jerome'',
       ''Both translated and preserved Scripture''),
      (''elizabeth-hungary-francis'',
       ''Both devoted to serving the poor''),
      (''elizabeth-hungary-dominic'',
       ''Elizabeth inspired by Dominican spirituality''),
      (''joan-arc-catherine-siena'',
       ''Both received visions and influenced politics''),
      (''mary-teresa-avila'',
       ''Teresa had deep Marian devotion''),
      (''mary-therese'',
       ''Th'' @ [CHR 0xC3] @ [CHR 0xA9] @ ''r'' @ [CHR 0xC3] @ [CHR 0xA8] @ ''se's 'Little Way' centered on Mary''),
      (''mother-teresa-john-paul-ii'',
       ''John Paul II supported Mother Teresa's work''),
      (''maximilian-kolbe-john-paul-ii'',
       ''Both Polish saints, John Paul beatified Kolbe''),
      (''maximilian-kolbe-francis'',
       ''Kolbe was a Franciscan friar and martyr''),
      (''john-chrysostom-basil'',
       ''Cappadocian Fathers and theologians''),
      (''gregory-nazianzus-basil'',
       ''Cappadocian Fathers, defended Trinity''),
      (''john-chrysostom-gregory-nazianzus'',
       ''Both great preachers and theologians''),
      (''john-xxiii-john-paul-ii'',
       ''John XXIII's reforms influenced John Paul II''),
      (''faustina-john-paul-ii'',
       ''John Paul II canonized Faustina, promoted Divine Mercy''),
      (''faustina-therese'',
       ''Both promoted trust in God's mercy''),
      (''rose-lima-teresa-avila'',
       ''Both mystics influenced by Carmelite spirituality''),
      (''rose-lima-dominic'',
       ''Rose was a Dominican tertiary''),
      (''mother-teresa-therese'',
       ''Teresa inspired by Th'' @ [CHR 0xC3] @ [CHR 0xA9] @ ''r'' @ [CHR 0xC3] @ [CHR 0xA8] @ ''se's 'Little Way'' @ [CHR 0x27])
     ]"

text \<open>\<^verbatim>\<open>getRelationshipDetail\<close> (lines 181 to 242), on the identifiers of the two ends.\<close>

definition relationship_detail :: "string \<Rightarrow> string \<Rightarrow> string" where
  "relationship_detail s t =
     (let key1 = s @ ''-'' @ t;
          key2 = t @ ''-'' @ s
      in or_else (js_or (map_of details key1) (map_of details key2))
           ''These saints shared important connections in Church history'')"

definition getRelationshipDetail :: "node list \<Rightarrow> link \<Rightarrow> string" where
  "getRelationshipDetail ns d =
     relationship_detail (node_id (ns ! source d)) (node_id (ns ! target d))"

definition relationshipDescriptions :: "string \<Rightarrow> string option" where
  "relationshipDescriptions = map_of
     [(''mentor'', ''Mentor-Student relationship''),
      (''contemporary'', ''Lived at the same time''),
      (''influence'', ''Theological/spiritual influence''),
      (''order'', ''Same religious order''),
      (''friend'', ''Personal friendship''),
      (''colleague'', ''Worked together'')]"

definition link_html :: "node list \<Rightarrow> link \<Rightarrow> string" where
  "link_html ns d =
     (let description = or_else (relationshipDescriptions (link_type d)) ''Connected''
      in [CHR 0x0A] @ ''            <h3>'' @ name_text (ns ! source d) @ '' '' @
           [CHR 0xE2, CHR 0x86, CHR 0x94] @ '' '' @ name_text (ns ! target d) @ ''</h3>'' @
         [CHR 0x0A] @ ''            <p><strong>Relationship:</strong> '' @ description @ ''</p>'' @
         [CHR 0x0A] @ ''            <p><em>'' @ getRelationshipDetail ns d @ ''</em></p>'' @
         [CHR 0x0A] @ ''        '')"

definition handleLinkMouseOver :: "nat \<Rightarrow> mouse_event \<Rightarrow> link \<Rightarrow> page \<Rightarrow> page" where
  "handleLinkMouseOver el ev d p =
     p\<lparr>link_sel := (link_sel p)[el := (link_sel p ! el)
           \<lparr>stroke_width :=
              link_width_hover (link_type (links p ! line_datum (link_sel p ! el))),
            line_stroke := Some ''#8B4513''\<rparr>],
       tooltip := (tooltip p)
           \<lparr>tip_opacity := Some 1,
            tip_html := link_html (nodes p) d,
            tip_left := Some (ToString (pageX ev + 10) @ ''px''),
            tip_top := Some (ToString (pageY ev - 10) @ ''px'')\<rparr>\<rparr>"

definition handleLinkMouseOut :: "nat \<Rightarrow> mouse_event \<Rightarrow> link \<Rightarrow> page \<Rightarrow> page" where
  "handleLinkMouseOut el ev d p =
     p\<lparr>link_sel := (link_sel p)[el := (link_sel p ! el)
           \<lparr>stroke_width := link_width (link_type (links p ! line_datum (link_sel p ! el))),
            line_stroke := Some ''rgba(139, 69, 19, 0.4)''\<rparr>],
       tooltip := (tooltip p)\<lparr>tip_opacity := Some 0\<rparr>\<rparr>"

section \<open>Filters\<close>

text \<open>
  \<^verbatim>\<open>updateButtons\<close> (lines 313 to 320). \<^verbatim>\<open>d3.selectAll("button")\<close> is every button of the
  page; \<^verbatim>\<open>d3.select\<close> with an attribute selector is the first button whose
  \<^verbatim>\<open>onclick\<close> attribute is the quoted text, if there is one.
\<close>

fun activate_first :: "string \<Rightarrow> button_el list \<Rightarrow> button_el list" where
  "activate_first v [] = []"
| "activate_first v (b # bs) =
     (if onclick b = Some v then b\<lparr>active_class := True\<rparr> # bs
      else b # activate_first v bs)"

definition updateButtons :: "page \<Rightarrow> page" where
  "updateButtons p =
     (let bs = map (\<lambda>b. b\<lparr>active_class := False\<rparr>) (buttons p) in
      if currentFilter p = ''all''
      then p\<lparr>buttons := activate_first ''filterAll()'' bs\<rparr>
      else p\<lparr>buttons := activate_first
             (''filterByType('' @ [CHR 0x27] @ currentFilter p @ [CHR 0x27] @ '')'') bs\<rparr>)"

definition filterAll :: "page \<Rightarrow> page" where
  "filterAll p =
     (let p1 = updateButtons (p\<lparr>currentFilter := ''all''\<rparr>) in
      p1\<lparr>node_sel := map (\<lambda>c. c\<lparr>circle_opacity := Some 1\<rparr>) (node_sel p1),
         label_sel := map (\<lambda>t. t\<lparr>label_opacity := Some 1\<rparr>) (label_sel p1),
         link_sel := map (\<lambda>l. l\<lparr>line_opacity := Some (7 / 10)\<rparr>) (link_sel p1)\<rparr>)"

definition filterByType :: "category \<Rightarrow> page \<Rightarrow> page" where
  "filterByType ty p =
     (let p1 = updateButtons (p\<lparr>currentFilter := category_name ty\<rparr>) in
      p1\<lparr>node_sel := map (\<lambda>c. c\<lparr>circle_opacity := Some
             (if node_type (nodes p1 ! circle_datum c) = category_name ty then 1 else 2 / 10)\<rparr>)
           (node_sel p1),
         label_sel := map (\<lambda>t. t\<lparr>label_opacity := Some
             (if node_type (nodes p1 ! label_datum t) = category_name ty then 1 else 2 / 10)\<rparr>)
           (label_sel p1),
         link_sel := map (\<lambda>l. l\<lparr>line_opacity := Some
             (if node_type (nodes p1 ! source (links p1 ! line_datum l)) = category_name ty
                 \<or> node_type (nodes p1 ! target (links p1 ! line_datum l)) = category_name ty
              then 7 / 10 else 1 / 10)\<rparr>)
           (link_sel p1)\<rparr>)"

section \<open>The page as a state machine\<close>

text \<open>
  What can happen to the page once it is set up. The layout engine is not part of the
  script: a tick of the engine gives the unpinned nodes whatever positions its forces
  compute (the list \<open>ps\<close>), puts a pinned node on its pin and then calls the tick listener,
  \<^verbatim>\<open>updatePositions\<close>, if line 96 has registered it. The drag behaviour calls \<^verbatim>\<open>dragstarted\<close> once per gesture, then
  \<^verbatim>\<open>dragged\<close> and at last \<^verbatim>\<open>dragended\<close> for that gesture; the subject of a gesture is the
  datum of the circle it started on, and the event's \<^verbatim>\<open>active\<close> counts the other gestures
  in progress. A mouse event carries the datum of the element it happens on.
\<close>

datatype event =
    Tick "(real \<times> real) list"
  | Cooled
  | DragStart nat
  | Drag nat real real
  | DragEnd nat
  | MouseOver nat int int
  | MouseOut nat int int
  | LinkMouseOver nat int int
  | LinkMouseOut nat int int
  | ClickFilterAll
  | ClickFilterByType category

definition engine :: "(real \<times> real) list \<Rightarrow> node list \<Rightarrow> node list" where
  "engine ps ns =
     map (\<lambda>(i, d).
            d\<lparr>node_x := (case node_fx d of
                           Some f \<Rightarrow> f
                         | None \<Rightarrow> if i < length ps then fst (ps ! i) else node_x d),
              node_y := (case node_fy d of
                           Some f \<Rightarrow> f
                         | None \<Rightarrow> if i < length ps then snd (ps ! i) else node_y d)\<rparr>)
         (enumerate 0 ns)"

fun step :: "event \<Rightarrow> page \<Rightarrow> page" where
  "step (Tick ps) p =
     (if running p
      then if tick_listener p
           then updatePositions (p\<lparr>nodes := engine ps (nodes p)\<rparr>)
           else p\<lparr>nodes := engine ps (nodes p)\<rparr>
      else p)"
| "step Cooled p = p\<lparr>running := False\<rparr>"
| "step (DragStart el) p =
     (if el < length (node_sel p)
      then let s = circle_datum (node_sel p ! el) in
           dragstarted
             \<lparr>subject = s, active = length (gestures p),
              event_x = node_x (nodes p ! s), event_y = node_y (nodes p ! s)\<rparr>
             (p\<lparr>gestures := s # gestures p\<rparr>)
      else p)"
| "step (Drag s ex ey) p =
     (if s \<in> set (gestures p)
      then dragged \<lparr>subject = s, active = length (gestures p), event_x = ex, event_y = ey\<rparr> p
      else p)"
| "step (DragEnd s) p =
     (if s \<in> set (gestures p)
      then dragended
             \<lparr>subject = s, active = length (gestures p) - 1,
              event_x = node_x (nodes p ! s), event_y = node_y (nodes p ! s)\<rparr>
             (p\<lparr>gestures := remove1 s (gestures p)\<rparr>)
      else p)"
| "step (MouseOver el px py) p =
     (if el < length (node_sel p)
      then handleMouseOver el \<lparr>pageX = px, pageY = py\<rparr>
             (nodes p ! circle_datum (node_sel p ! el)) p
      else p)"
| "step (MouseOut el px py) p =
     (if el < length (node_sel p)
      then handleMouseOut el \<lparr>pageX = px, pageY = py\<rparr>
             (nodes p ! circle_datum (node_sel p ! el)) p
      else p)"
| "step (LinkMouseOver el px py) p =
     (if el < length (link_sel p)
      then handleLinkMouseOver el \<lparr>pageX = px, pageY = py\<rparr>
             (links p ! line_datum (link_sel p ! el)) p
      else p)"
| "step (LinkMouseOut el px py) p =
     (if el < length (link_sel p)
      then handleLinkMouseOut el \<lparr>pageX = px, pageY = py\<rparr>
             (links p ! line_datum (link_sel p ! el)) p
      else p)"
| "step ClickFilterAll p = filterAll p"
| "step (ClickFilterByType ty) p = filterByType ty p"

definition run :: "event list \<Rightarrow> page \<Rightarrow> page" where
  "run es p = fold step es p"

text \<open>
  The references of a page are in range: every element is bound to a datum that exists,
  and every link joins two nodes that exist.
\<close>

definition wf_page :: "page \<Rightarrow> bool" where
  "wf_page p \<longleftrightarrow>
     list_all (\<lambda>d. source d < length (nodes p) \<and> target d < length (nodes p)) (links p) \<and>
     list_all (\<lambda>l. line_datum l < length (links p)) (link_sel p) \<and>
     list_all (\<lambda>c. circle_datum c < length (nodes p)) (node_sel p) \<and>
     list_all (\<lambda>t. label_datum t < length (nodes p)) (label_sel p) \<and>
     list_all (\<lambda>s. s < length (nodes p)) (gestures p)"

section \<open>Vocabulary of the properties\<close>

text \<open>
  A node fits the viewport when its diameter is at most the viewport's width and height.
  A coordinate is within the viewport, the radius accounted for, when it lies between
  \<^verbatim>\<open>size\<close> and \<^verbatim>\<open>width - size\<close> (for \<open>y\<close>: \<^verbatim>\<open>height - size\<close>); a position that has
  not been set is not within it.
\<close>

definition fits :: "node \<Rightarrow> bool" where
  "fits d \<longleftrightarrow> 2 * node_size d \<le> width \<and> 2 * node_size d \<le> height"

definition within_x :: "node \<Rightarrow> real \<Rightarrow> bool" where
  "within_x d v \<longleftrightarrow> node_size d \<le> v \<and> v \<le> width - node_size d"

definition within_y :: "node \<Rightarrow> real \<Rightarrow> bool" where
  "within_y d v \<longleftrightarrow> node_size d \<le> v \<and> v \<le> height - node_size d"

definition placed :: "node \<Rightarrow> real option \<Rightarrow> real option \<Rightarrow> bool" where
  "placed d ox oy =
     (case ox of
        None \<Rightarrow> False
      | Some vx \<Rightarrow> (case oy of None \<Rightarrow> False | Some vy \<Rightarrow> within_x d vx \<and> within_y d vy))"

subsection \<open>Drawn positions\<close>

text \<open>
  A circle, label or line end is drawn in order when it has no position yet or its
  position is within the viewport for its node; this is asked of the nodes that fit. A
  page is rendered in order when every circle, label and line end is. The place of an
  element is its datum together with its position.
\<close>

definition drawn :: "node \<Rightarrow> real option \<Rightarrow> real option \<Rightarrow> bool" where
  "drawn d ox oy \<longleftrightarrow> (ox = None \<and> oy = None) \<or> placed d ox oy"

definition drawn_at :: "page \<Rightarrow> nat \<Rightarrow> real option \<Rightarrow> real option \<Rightarrow> bool" where
  "drawn_at p k ox oy \<longleftrightarrow> (fits (nodes p ! k) \<longrightarrow> drawn (nodes p ! k) ox oy)"

definition rendered_ok :: "page \<Rightarrow> bool" where
  "rendered_ok p \<longleftrightarrow>
     list_all (\<lambda>c. drawn_at p (circle_datum c) (circle_cx c) (circle_cy c)) (node_sel p) \<and>
     list_all (\<lambda>t. drawn_at p (label_datum t) (label_x t) (label_y t)) (label_sel p) \<and>
     list_all (\<lambda>l. drawn_at p (source (links p ! line_datum l)) (line_x1 l) (line_y1 l) \<and>
                   drawn_at p (target (links p ! line_datum l)) (line_x2 l) (line_y2 l))
       (link_sel p)"

definition circle_place :: "circle_el \<Rightarrow> nat \<times> real option \<times> real option" where
  "circle_place c = (circle_datum c, circle_cx c, circle_cy c)"

definition label_place :: "text_el \<Rightarrow> nat \<times> real option \<times> real option" where
  "label_place t = (label_datum t, label_x t, label_y t)"

definition line_place ::
  "line_el \<Rightarrow> nat \<times> real option \<times> real option \<times> real option \<times> real option" where
  "line_place l = (line_datum l, line_x1 l, line_y1 l, line_x2 l, line_y2 l)"

subsection \<open>Filters\<close>

text \<open>
  A node matches a category tag when its \<^verbatim>\<open>type\<close> is the tag; a link matches when the
  node at either end does (the test of \<^verbatim>\<open>filterByType\<close>, lines 308 to 310).
  \<^term>\<open>erase_filter_state\<close> forgets what the filters are about: the current filter, the
  \<^verbatim>\<open>active\<close> class of the buttons and the opacity of the circles, labels and lines.
\<close>

definition node_matches :: "page \<Rightarrow> category \<Rightarrow> nat \<Rightarrow> bool" where
  "node_matches p ty k \<longleftrightarrow> node_type (nodes p ! k) = category_name ty"

definition link_matches :: "page \<Rightarrow> category \<Rightarrow> nat \<Rightarrow> bool" where
  "link_matches p ty k \<longleftrightarrow>
     node_matches p ty (source (links p ! k)) \<or> node_matches p ty (target (links p ! k))"

definition opacity_state ::
  "page \<Rightarrow> real option list \<times> real option list \<times> real option list" where
  "opacity_state p =
     (map circle_opacity (node_sel p), map label_opacity (label_sel p),
      map line_opacity (link_sel p))"

definition erase_filter_state :: "page \<Rightarrow> page" where
  "erase_filter_state p =
     p\<lparr>currentFilter := [],
       buttons := map (\<lambda>b. b\<lparr>active_class := False\<rparr>) (buttons p),
       node_sel := map (\<lambda>c. c\<lparr>circle_opacity := None\<rparr>) (node_sel p),
       label_sel := map (\<lambda>t. t\<lparr>label_opacity := None\<rparr>) (label_sel p),
       link_sel := map (\<lambda>l. l\<lparr>line_opacity := None\<rparr>) (link_sel p)\<rparr>"

subsection \<open>Data files\<close>

text \<open>
  The data model asks that every identifier a link refers to is the identifier of a
  node, and gives every node a display name. \<^term>\<open>loads\<close> describes the data files on
  which the \<^verbatim>\<open>try\<close> block of \<^verbatim>\<open>init\<close> runs to its end: \<^verbatim>\<open>nodes\<close> and \<^verbatim>\<open>links\<close> are there,
  every link end names a node and every node has a name.
\<close>

definition endpoints_exist :: "node list \<Rightarrow> raw_link list \<Rightarrow> bool" where
  "endpoints_exist ns rls \<longleftrightarrow>
     list_all (\<lambda>l. source_id l \<in> set (map node_id ns) \<and> target_id l \<in> set (map node_id ns))
       rls"

definition named :: "node \<Rightarrow> bool" where
  "named d \<longleftrightarrow> name d \<noteq> None"

definition loads :: "fetched \<Rightarrow> bool" where
  "loads r =
     (case r of
        Loaded doc \<Rightarrow>
          (case doc_nodes doc of
             None \<Rightarrow> False
           | Some ns \<Rightarrow>
               (case doc_links doc of
                  None \<Rightarrow> False
                | Some rls \<Rightarrow> endpoints_exist ns rls \<and> list_all named ns))
      | _ \<Rightarrow> False)"

subsection \<open>Pinned nodes\<close>

text \<open>
  A node is unpinned when \<open>fx\<close> and \<open>fy\<close> are both \<^verbatim>\<open>null\<close>. A page keeps its pins in
  order when every node that is not unpinned is the subject of a gesture in progress. The
  data file pins nothing when no node of it carries \<open>fx\<close> or \<open>fy\<close>.
\<close>

definition unpinned :: "node \<Rightarrow> bool" where
  "unpinned d \<longleftrightarrow> node_fx d = None \<and> node_fy d = None"

definition pins_ok :: "page \<Rightarrow> bool" where
  "pins_ok p \<longleftrightarrow>
     list_all (\<lambda>(i, d). unpinned d \<or> i \<in> set (gestures p)) (enumerate 0 (nodes p))"

definition unpinned_data :: "fetched \<Rightarrow> bool" where
  "unpinned_data r =
     (case r of
        Loaded doc \<Rightarrow> (case doc_nodes doc of None \<Rightarrow> True | Some ns \<Rightarrow> list_all unpinned ns)
      | _ \<Rightarrow> True)"

subsection \<open>The table of relationship details\<close>

text \<open>
  \<^term>\<open>splits k\<close> lists every way to cut the key \<open>k\<close> at a hyphen; a table is in one
  order when no key, cut at a hyphen and put together the other way round, is a key.
  \<^term>\<open>detail_of\<close> is the lookup under both orders with the fallback text.
\<close>

fun splits :: "string \<Rightarrow> (string \<times> string) list" where
  "splits [] = []"
| "splits (c # cs) =
     (if c = CHR ''-'' then [([], cs)] else []) @ map (\<lambda>(s, t). (c # s, t)) (splits cs)"

definition one_order :: "(string \<times> string) list \<Rightarrow> bool" where
  "one_order tab \<longleftrightarrow>
     list_all (\<lambda>(k, v). list_all (\<lambda>(s, t). map_of tab (t @ ''-'' @ s) = None) (splits k)) tab"

definition detail_of :: "string \<Rightarrow> string \<Rightarrow> string" where
  "detail_of s t =
     (case map_of details (s @ ''-'' @ t) of
        Some v \<Rightarrow> v
      | None \<Rightarrow>
          (case map_of details (t @ ''-'' @ s) of
             Some v \<Rightarrow> v
           | None \<Rightarrow> ''These saints shared important connections in Church history''))"

subsection \<open>Sample pages\<close>

text \<open>
  A data file of three saints and two links, and the page \<^verbatim>\<open>init\<close> makes of it; a data
  file whose only node is wider than the viewport is high, and its page; a link to a saint
  who is not in the file; and a node that has Peter's name, dates and texts and another
  identifier, type, size and position.
\<close>

definition demo_nodes :: "node list" where
  "demo_nodes =
     [\<lparr>node_id = ''peter'', name = Some ''St. Peter'', node_type = ''apostle'', node_size = 25,
       feastDay = ''June 29'', birthYear = 1, deathYear = 64, location = ''Rome'',
       patronage = ''Fishermen'', description = ''First Pope'',
       node_x = 1300, node_y = -40, node_fx = None, node_fy = None\<rparr>,
      \<lparr>node_id = ''paul'', name = Some ''St. Paul'', node_type = ''apostle'', node_size = 22,
       feastDay = ''June 29'', birthYear = 5, deathYear = 67, location = ''Tarsus'',
       patronage = ''Missionaries'', description = ''Apostle to the Gentiles'',
       node_x = 600, node_y = 350, node_fx = None, node_fy = None\<rparr>,
      \<lparr>node_id = ''augustine'', name = Some ''St. Augustine'', node_type = ''doctor'',
       node_size = 20, feastDay = ''August 28'', birthYear = 354, deathYear = 430,
       location = ''Hippo'', patronage = ''Theologians'', description = ''Doctor of Grace'',
       node_x = 10, node_y = 690, node_fx = None, node_fy = None\<rparr>]"

definition demo_links :: "raw_link list" where
  "demo_links =
     [\<lparr>source_id = ''peter'', target_id = ''paul'', raw_type = ''colleague''\<rparr>,
      \<lparr>source_id = ''paul'', target_id = ''augustine'', raw_type = ''influence''\<rparr>]"

definition demo_buttons :: "button_el list" where
  "demo_buttons =
     [\<lparr>onclick = Some ''filterAll()'', active_class = True\<rparr>,
      \<lparr>onclick = Some (''filterByType('' @ [CHR 0x27] @ ''apostle'' @ [CHR 0x27] @ '')''),
       active_class = False\<rparr>,
      \<lparr>onclick = Some (''filterByType('' @ [CHR 0x27] @ ''doctor'' @ [CHR 0x27] @ '')''),
       active_class = False\<rparr>]"

definition demo_tooltip :: tooltip_el where
  "demo_tooltip = \<lparr>tip_opacity = Some 0, tip_html = [], tip_left = None, tip_top = None\<rparr>"

definition demo_page :: page where
  "demo_page =
     init (Loaded \<lparr>doc_nodes = Some demo_nodes, doc_links = Some demo_links\<rparr>)
       (start demo_buttons demo_tooltip)"

definition wide_nodes :: "node list" where
  "wide_nodes =
     [\<lparr>node_id = ''mary'', name = Some ''Blessed Virgin Mary'', node_type = ''mystic'',
       node_size = 400, feastDay = ''January 1'', birthYear = -18, deathYear = 43,
       location = ''Nazareth'', patronage = ''All humanity'', description = ''Mother of God'',
       node_x = 600, node_y = 350, node_fx = None, node_fy = None\<rparr>]"

definition wide_page :: page where
  "wide_page =
     init (Loaded \<lparr>doc_nodes = Some wide_nodes, doc_links = Some []\<rparr>)
       (start demo_buttons demo_tooltip)"

definition dangling_links :: "raw_link list" where
  "dangling_links =
     [\<lparr>source_id = ''peter'', target_id = ''andrew'', raw_type = ''friend''\<rparr>]"

definition peter_elsewhere :: node where
  "peter_elsewhere =
     (demo_nodes ! 0)\<lparr>node_id := ''cephas'', node_type := ''martyr'', node_size := 31,
       node_x := 7, node_y := 9, node_fx := Some 7, node_fy := Some 9\<rparr>"

text \<open>
  The sample data file with Paul's record lacking its name, and the sample data file
  with Peter's record carrying a pinned position, \<^verbatim>\<open>"fx": 7, "fy": 9\<close>.
\<close>

definition nameless_nodes :: "node list" where
  "nameless_nodes = demo_nodes[1 := (demo_nodes ! 1)\<lparr>name := None\<rparr>]"

definition nameless_file :: fetched where
  "nameless_file = Loaded \<lparr>doc_nodes = Some nameless_nodes, doc_links = Some demo_links\<rparr>"

definition pinned_nodes :: "node list" where
  "pinned_nodes = demo_nodes[0 := (demo_nodes ! 0)\<lparr>node_fx := Some 7, node_fy := Some 9\<rparr>]"

definition pinned_file :: fetched where
  "pinned_file = Loaded \<lparr>doc_nodes = Some pinned_nodes, doc_links = Some demo_links\<rparr>"

section \<open>Properties\<close>

subsection \<open>Pages whose references are in range\<close>

lemma wf_pageD:
  assumes "wf_page p"
  shows "d \<in> set (links p) \<Longrightarrow> source d < length (nodes p) \<and> target d < length (nodes p)"
    and "l \<in> set (link_sel p) \<Longrightarrow> line_datum l < length (links p)"
    and "c \<in> set (node_sel p) \<Longrightarrow> circle_datum c < length (nodes p)"
    and "t \<in> set (label_sel p) \<Longrightarrow> label_datum t < length (nodes p)"
    and "s \<in> set (gestures p) \<Longrightarrow> s < length (nodes p)"
  using assms by (auto simp: wf_page_def list_all_iff)

lemma wf_page_link_ends:
  assumes "wf_page p" and "l \<in> set (link_sel p)"
  shows "source (links p ! line_datum l) < length (nodes p)"
    and "target (links p ! line_datum l) < length (nodes p)"
proof -
  have "line_datum l < length (links p)"
    using assms by (rule wf_pageD(2))
  then have "links p ! line_datum l \<in> set (links p)"
    by simp
  then show "source (links p ! line_datum l) < length (nodes p)"
    and "target (links p ! line_datum l) < length (nodes p)"
    using wf_pageD(1)[OF assms(1)] by blast+
qed

lemma wf_page_iff:
  "wf_page p \<longleftrightarrow>
     (\<forall>d \<in> set (links p). source d < length (nodes p) \<and> target d < length (nodes p)) \<and>
     (\<forall>l \<in> set (link_sel p). line_datum l < length (links p)) \<and>
     (\<forall>c \<in> set (node_sel p). circle_datum c < length (nodes p)) \<and>
     (\<forall>t \<in> set (label_sel p). label_datum t < length (nodes p)) \<and>
     (\<forall>s \<in> set (gestures p). s < length (nodes p))"
  by (simp add: wf_page_def list_all_iff)

lemma wf_page_nodes_length:
  assumes "wf_page p" and "length ns = length (nodes p)"
  shows "wf_page (p\<lparr>nodes := ns\<rparr>)"
  using assms by (simp add: wf_page_def)

subsection \<open>What the handlers write\<close>

lemma nodes_updatePositions: "nodes (updatePositions p) = map constrain (nodes p)"
  by (simp add: updatePositions_def Let_def)

lemma links_updatePositions: "links (updatePositions p) = links p"
  by (simp add: updatePositions_def Let_def)

lemma dragged_subject:
  assumes "subject ev < length (nodes p)"
  shows "nodes (dragged ev p) ! subject ev =
      (nodes p ! subject ev)
        \<lparr>node_fx := Some (max (node_size (nodes p ! subject ev))
             (min (width - node_size (nodes p ! subject ev)) (event_x ev))),
         node_fy := Some (max (node_size (nodes p ! subject ev))
             (min (height - node_size (nodes p ! subject ev)) (event_y ev)))\<rparr>"
  using assms by (simp add: dragged_def Let_def)

lemma nodes_dragstarted:
  "nodes (dragstarted ev p) =
     (nodes p)[subject ev := (nodes p ! subject ev)
        \<lparr>node_fx := Some (node_x (nodes p ! subject ev)),
         node_fy := Some (node_y (nodes p ! subject ev))\<rparr>]"
  and gestures_dragstarted: "gestures (dragstarted ev p) = gestures p"
  by (simp_all add: dragstarted_def Let_def)

lemma nodes_dragged:
  "nodes (dragged ev p) =
     (nodes p)[subject ev := (nodes p ! subject ev)
        \<lparr>node_fx := Some (max (node_size (nodes p ! subject ev))
             (min (width - node_size (nodes p ! subject ev)) (event_x ev))),
         node_fy := Some (max (node_size (nodes p ! subject ev))
             (min (height - node_size (nodes p ! subject ev)) (event_y ev)))\<rparr>]"
  and gestures_dragged: "gestures (dragged ev p) = gestures p"
  by (simp_all add: dragged_def Let_def)

lemma nodes_dragended:
  "nodes (dragended ev p) =
     (nodes p)[subject ev := (nodes p ! subject ev)\<lparr>node_fx := None, node_fy := None\<rparr>]"
  and gestures_dragended: "gestures (dragended ev p) = gestures p"
  by (simp_all add: dragended_def Let_def)

lemma length_engine: "length (engine ps ns) = length ns"
  by (simp add: engine_def)

lemma deactivate_activate_first:
  "map (\<lambda>b. b\<lparr>active_class := False\<rparr>) (activate_first v bs) =
   map (\<lambda>b. b\<lparr>active_class := False\<rparr>) bs"
  by (induction bs) auto

lemma onclick_activate_first: "map onclick (activate_first v bs) = map onclick bs"
  by (induction bs) auto

lemma updateButtons_deactivated:
  "map (\<lambda>b. b\<lparr>active_class := False\<rparr>) (buttons (updateButtons p)) =
   map (\<lambda>b. b\<lparr>active_class := False\<rparr>) (buttons p)"
  by (simp add: updateButtons_def Let_def deactivate_activate_first o_def)

lemma updateButtons_onclick: "map onclick (buttons (updateButtons p)) = map onclick (buttons p)"
  by (simp add: updateButtons_def Let_def onclick_activate_first o_def)

lemma updateButtons_fields:
  "nodes (updateButtons p) = nodes p"
  "links (updateButtons p) = links p"
  "node_sel (updateButtons p) = node_sel p"
  "label_sel (updateButtons p) = label_sel p"
  "link_sel (updateButtons p) = link_sel p"
  "currentFilter (updateButtons p) = currentFilter p"
  "gestures (updateButtons p) = gestures p"
  by (simp_all add: updateButtons_def Let_def)

subsection \<open>Loading the data\<close>

lemma find_node_None_iff: "find_node ns i = None \<longleftrightarrow> i \<notin> set (map node_id ns)"
  by (induction ns) (auto split: option.splits)

lemma find_node_Some:
  "find_node ns i = Some k \<Longrightarrow> k < length ns \<and> node_id (ns ! k) = i"
  by (induction ns arbitrary: k) (auto split: option.splits if_splits)

lemma forceLink_Inr_iff: "(\<exists>ls. forceLink ns rls = Inr ls) \<longleftrightarrow> endpoints_exist ns rls"
proof (induction rls)
  case Nil
  then show ?case by (simp add: endpoints_exist_def)
next
  case (Cons l rls)
  have s: "find_node ns (source_id l) = None \<longleftrightarrow> source_id l \<notin> set (map node_id ns)"
    and t: "find_node ns (target_id l) = None \<longleftrightarrow> target_id l \<notin> set (map node_id ns)"
    by (rule find_node_None_iff)+
  show ?case
    using Cons.IH s t
    by (auto simp: endpoints_exist_def split: option.splits sum.splits)
qed

lemma forceLink_resolved:
  "forceLink ns rls = Inr ls \<Longrightarrow>
   list_all2 (\<lambda>d l. source d < length ns \<and> target d < length ns \<and>
                    node_id (ns ! source d) = source_id l \<and>
                    node_id (ns ! target d) = target_id l \<and>
                    link_type d = raw_type l) ls rls"
proof (induction rls arbitrary: ls)
  case Nil
  then show ?case by simp
next
  case (Cons l rls)
  then show ?case
    by (auto split: option.splits sum.splits dest!: find_node_Some)
qed

lemma forceLink_length: "forceLink ns rls = Inr ls \<Longrightarrow> length ls = length rls"
  by (drule forceLink_resolved) (rule list_all2_lengthD)

lemma forceLink_in_range:
  "forceLink ns rls = Inr ls \<Longrightarrow>
   list_all (\<lambda>d. source d < length ns \<and> target d < length ns) ls"
  by (drule forceLink_resolved) (auto simp: list_all2_conv_all_nth list_all_length)

lemma datum_enumerate:
  "map (circle_datum \<circ> new_circle) (enumerate 0 xs) = [0..<length xs]"
  "map (line_datum \<circ> new_line) (enumerate 0 ys) = [0..<length ys]"
  by (simp_all add: new_circle_def new_line_def enumerate_eq_zip o_def
      split_def map_nth flip: map_map)

text \<open>
  The labels are created when every record has a name, and then there is one to a node,
  in order, with no position and no opacity yet.
\<close>

lemma those_map_Some_iff:
  "those (map f xs) = Some ys \<longleftrightarrow> list_all2 (\<lambda>x y. f x = Some y) xs ys"
proof (induction xs arbitrary: ys)
  case Nil
  show ?case by auto
next
  case (Cons x xs)
  show ?case
    by (cases ys) (auto simp: Cons.IH split: option.splits)
qed

lemma those_map_None_iff: "those (map f xs) = None \<longleftrightarrow> (\<exists>x \<in> set xs. f x = None)"
  by (induction xs) (auto split: option.splits)

lemma new_label_None_iff: "new_label (i, d) = None \<longleftrightarrow> \<not> named d"
  by (simp add: new_label_def named_def split: option.splits)

lemma new_label_Some:
  assumes "new_label (i, d) = Some t"
  shows "label_datum t = i \<and> label_x t = None \<and> label_y t = None \<and> label_opacity t = None"
  using assms by (auto simp: new_label_def split: option.splits)

lemma labels_Some_iff:
  "(\<exists>ts. those (map new_label (enumerate 0 ns)) = Some ts) \<longleftrightarrow> list_all named ns"
proof -
  have "(\<exists>x \<in> set (enumerate 0 ns). new_label x = None) \<longleftrightarrow> (\<exists>d \<in> set ns. \<not> named d)"
  proof
    assume "\<exists>x \<in> set (enumerate 0 ns). new_label x = None"
    then obtain i d where "(i, d) \<in> set (enumerate 0 ns)" and "new_label (i, d) = None"
      by auto
    then have "d \<in> set ns" and "\<not> named d"
      by (auto simp: in_set_enumerate_eq new_label_None_iff)
    then show "\<exists>d \<in> set ns. \<not> named d"
      by blast
  next
    assume "\<exists>d \<in> set ns. \<not> named d"
    then obtain i where "i < length ns" and "\<not> named (ns ! i)"
      by (auto simp: in_set_conv_nth)
    then have "(i, ns ! i) \<in> set (enumerate 0 ns)" and "new_label (i, ns ! i) = None"
      by (auto simp: in_set_enumerate_eq new_label_None_iff)
    then show "\<exists>x \<in> set (enumerate 0 ns). new_label x = None"
      by blast
  qed
  then have "those (map new_label (enumerate 0 ns)) = None \<longleftrightarrow> \<not> list_all named ns"
    by (simp add: those_map_None_iff list_all_iff)
  then show ?thesis
    by (cases "those (map new_label (enumerate 0 ns))") auto
qed

lemma labels_created:
  assumes "those (map new_label (enumerate 0 ns)) = Some ts"
  shows "length ts = length ns"
    and "map label_datum ts = [0..<length ns]"
    and "list_all (\<lambda>t. label_x t = None \<and> label_y t = None \<and> label_opacity t = None) ts"
proof -
  have all: "list_all2 (\<lambda>x y. new_label x = Some y) (enumerate 0 ns) ts"
    using assms by (simp add: those_map_Some_iff)
  then show len: "length ts = length ns"
    by (auto dest: list_all2_lengthD)
  have nth: "new_label (i, ns ! i) = Some (ts ! i)" if "i < length ns" for i
    using list_all2_nthD[OF all, of i] that by (simp add: nth_enumerate_eq)
  have "label_datum (ts ! i) = i" if "i < length ns" for i
    using new_label_Some[OF nth[OF that]] by simp
  then show "map label_datum ts = [0..<length ns]"
    using len by (intro nth_equalityI) simp_all
  have "label_x (ts ! i) = None \<and> label_y (ts ! i) = None \<and> label_opacity (ts ! i) = None"
    if "i < length ns" for i
    using new_label_Some[OF nth[OF that]] by simp
  then show "list_all (\<lambda>t. label_x t = None \<and> label_y t = None \<and> label_opacity t = None) ts"
    using len by (simp add: list_all_length)
qed

lemma setupVisualization_Inr:
  assumes "forceLink (nodes p) rls = Inr ls"
    and "those (map new_label (enumerate 0 (nodes p))) = Some ts"
  shows "setupVisualization rls p =
     Inr (p\<lparr>svg := True, running := True, links := ls,
            link_sel := map new_line (enumerate 0 ls),
            node_sel := map new_circle (enumerate 0 (nodes p)),
            label_sel := ts, tick_listener := True\<rparr>)"
  using assms by (simp add: setupVisualization_def Let_def)

lemma setupVisualization_nameless:
  assumes "forceLink (nodes p) rls = Inr ls"
    and "those (map new_label (enumerate 0 (nodes p))) = None"
  shows "setupVisualization rls p =
     Inl (TypeError,
          p\<lparr>svg := True, running := True, links := ls,
            link_sel := map new_line (enumerate 0 ls),
            node_sel := map new_circle (enumerate 0 (nodes p))\<rparr>)"
  using assms by (simp add: setupVisualization_def Let_def)

lemma init_loaded_ok:
  assumes "forceLink ns rls = Inr ls"
    and "those (map new_label (enumerate 0 ns)) = Some ts"
  shows "init (Loaded \<lparr>doc_nodes = Some ns, doc_links = Some rls\<rparr>) p =
     p\<lparr>nodes := ns, svg := True, running := True, links := ls,
       link_sel := map new_line (enumerate 0 ls),
       node_sel := map new_circle (enumerate 0 ns),
       label_sel := ts, tick_listener := True\<rparr>"
  using assms by (simp add: init_def try_init_def setupVisualization_def Let_def)

lemma init_loaded_dangling:
  assumes "forceLink ns rls = Inl e"
  shows "init (Loaded \<lparr>doc_nodes = Some ns, doc_links = Some rls\<rparr>) p =
     p\<lparr>nodes := ns, running := True, network_html := Some error_message, svg := False,
       link_sel := [], node_sel := [], label_sel := []\<rparr>"
  using assms
  by (simp add: init_def try_init_def setupVisualization_def set_innerHTML_def Let_def)

lemma init_loaded_nameless:
  assumes "forceLink ns rls = Inr ls"
    and "those (map new_label (enumerate 0 ns)) = None"
  shows "init (Loaded \<lparr>doc_nodes = Some ns, doc_links = Some rls\<rparr>) p =
     p\<lparr>nodes := ns, running := True, links := ls, network_html := Some error_message,
       svg := False, link_sel := [], node_sel := [], label_sel := []\<rparr>"
  using assms
  by (simp add: init_def try_init_def setupVisualization_def set_innerHTML_def Let_def)

lemma wf_page_setup:
  assumes "forceLink ns rls = Inr ls"
    and "those (map new_label (enumerate 0 ns)) = Some ts"
  shows "wf_page ((start bs tt)\<lparr>nodes := ns, svg := True, running := True, links := ls,
       link_sel := map new_line (enumerate 0 ls),
       node_sel := map new_circle (enumerate 0 ns),
       label_sel := ts, tick_listener := True\<rparr>)"
proof -
  have "set (map label_datum ts) = {0..<length ns}"
    using labels_created(2)[OF assms(2)] by simp
  then have "label_datum t < length ns" if "t \<in> set ts" for t
    using that by force
  then show ?thesis
    using forceLink_in_range[OF assms(1)]
    by (auto simp: wf_page_def start_def list_all_iff new_line_def new_circle_def
        in_set_enumerate_eq)
qed

lemma loads_obtain:
  assumes "loads r"
  shows "\<exists>ns rls ls ts. r = Loaded \<lparr>doc_nodes = Some ns, doc_links = Some rls\<rparr> \<and>
           forceLink ns rls = Inr ls \<and>
           those (map new_label (enumerate 0 ns)) = Some ts"
proof (cases r)
  case (Loaded doc)
  with assms obtain ns rls where ns: "doc_nodes doc = Some ns" and rls: "doc_links doc = Some rls"
    and "endpoints_exist ns rls" and "list_all named ns"
    by (auto simp: loads_def split: option.splits)
  then obtain ls ts where "forceLink ns rls = Inr ls"
    and "those (map new_label (enumerate 0 ns)) = Some ts"
    using forceLink_Inr_iff[of ns rls] labels_Some_iff[of ns] by blast
  moreover have "doc = \<lparr>doc_nodes = Some ns, doc_links = Some rls\<rparr>"
    using ns rls by simp
  ultimately show ?thesis
    using Loaded by blast
qed (use assms in \<open>simp_all add: loads_def\<close>)

text \<open>
  On a data file that does not load, \<^verbatim>\<open>init\<close> leaves the page as it was at the start but
  for the error message, the nodes and links read so far, and the simulation's timer.
\<close>

lemma init_failed:
  assumes "\<not> loads r"
  shows "\<exists>ns ls b. init r (start bs tt) =
           (start bs tt)\<lparr>nodes := ns, links := ls, running := b,
              network_html := Some error_message\<rparr> \<and>
           list_all (\<lambda>d. source d < length ns \<and> target d < length ns) ls"
proof -
  have blank: "\<exists>ns ls b. q =
           (start bs tt)\<lparr>nodes := ns, links := ls, running := b,
              network_html := Some error_message\<rparr> \<and>
           list_all (\<lambda>d. source d < length ns \<and> target d < length ns) ls"
    if "q = (start bs tt)\<lparr>nodes := ns, links := ls, running := b,
              network_html := Some error_message\<rparr>"
      and "list_all (\<lambda>d. source d < length ns \<and> target d < length ns) ls"
    for q ns ls b
    using that by blast
  show ?thesis
  proof (cases r)
    case FetchFailed
    show ?thesis
      by (rule blank[where ns = "[]" and ls = "[]" and b = False])
         (simp_all add: FetchFailed init_def try_init_def set_innerHTML_def start_def)
  next
    case ParseFailed
    show ?thesis
      by (rule blank[where ns = "[]" and ls = "[]" and b = False])
         (simp_all add: ParseFailed init_def try_init_def set_innerHTML_def start_def)
  next
    case (Loaded doc)
    show ?thesis
    proof (cases "doc_nodes doc")
      case None
      show ?thesis
        by (rule blank[where ns = "[]" and ls = "[]" and b = False])
           (simp_all add: Loaded None init_def try_init_def set_innerHTML_def start_def)
    next
      case ns: (Some ns)
      show ?thesis
      proof (cases "doc_links doc")
        case None
        show ?thesis
          by (rule blank[where ns = ns and ls = "[]" and b = False])
             (simp_all add: Loaded ns None init_def try_init_def set_innerHTML_def start_def)
      next
        case rls: (Some rls)
        have doc: "doc = \<lparr>doc_nodes = Some ns, doc_links = Some rls\<rparr>"
          using ns rls by simp
        show ?thesis
        proof (cases "forceLink ns rls")
          case (Inl e)
          show ?thesis
            by (rule blank[where ns = ns and ls = "[]" and b = True])
               (simp_all add: Loaded doc init_loaded_dangling[OF Inl] start_def)
        next
          case (Inr ls)
          then have "endpoints_exist ns rls"
            using forceLink_Inr_iff[of ns rls] by blast
          then have "\<not> list_all named ns"
            using assms Loaded ns rls by (simp add: loads_def)
          then have none: "those (map new_label (enumerate 0 ns)) = None"
            using labels_Some_iff[of ns] by (cases "those (map new_label (enumerate 0 ns))") auto
          show ?thesis
            by (rule blank[where ns = ns and ls = ls and b = True])
               (simp_all add: Loaded doc init_loaded_nameless[OF Inr none] start_def
                  forceLink_in_range[OF Inr])
        qed
      qed
    qed
  qed
qed

lemma wf_page_init: "wf_page (init r (start bs tt))"
proof (cases "loads r")
  case True
  then obtain ns rls ls ts where "r = Loaded \<lparr>doc_nodes = Some ns, doc_links = Some rls\<rparr>"
    and ls: "forceLink ns rls = Inr ls"
    and ts: "those (map new_label (enumerate 0 ns)) = Some ts"
    using loads_obtain by blast
  then show ?thesis
    using wf_page_setup[OF ls ts, of bs tt] by (simp add: init_loaded_ok[OF ls ts])
next
  case False
  then obtain ns ls b where "init r (start bs tt) =
      (start bs tt)\<lparr>nodes := ns, links := ls, running := b,
         network_html := Some error_message\<rparr>"
    and "list_all (\<lambda>d. source d < length ns \<and> target d < length ns) ls"
    using init_failed by blast
  then show ?thesis
    by (simp add: wf_page_def start_def)
qed

lemma demo_page_nodes: "nodes demo_page = demo_nodes"
  by code_simp

lemma wide_page_nodes: "nodes wide_page = wide_nodes"
  by code_simp

lemma wf_demo_page: "wf_page demo_page"
  by code_simp

lemma wf_wide_page: "wf_page wide_page"
  by code_simp

text \<open>
  Claim C4. For every data file in which the source and the target of every link is the
  identifier of a node and every node has a name, of \<open>n\<close> nodes and \<open>m\<close> links,
  \<^verbatim>\<open>setupVisualization\<close> returns (and \<^verbatim>\<open>init\<close> ends on) a page with \<open>n\<close> circles, \<open>n\<close>
  labels and \<open>m\<close> lines; the circle and the label at place \<open>i\<close> are bound to node \<open>i\<close> of
  \<^verbatim>\<open>saintsData.nodes\<close> and the line at place \<open>j\<close> to link \<open>j\<close> of \<^verbatim>\<open>saintsData.links\<close>,
  whose source and target are nodes with the identifiers the data file gives.
\<close>

theorem well_formed_file_populates:
  assumes "endpoints_exist ns rls" and "list_all named ns"
  shows "\<exists>p. setupVisualization rls ((start bs tt)\<lparr>nodes := ns\<rparr>) = Inr p \<and>
             init (Loaded \<lparr>doc_nodes = Some ns, doc_links = Some rls\<rparr>) (start bs tt) = p \<and>
             nodes p = ns \<and>
             length (node_sel p) = length ns \<and>
             length (label_sel p) = length ns \<and>
             length (link_sel p) = length rls \<and>
             map circle_datum (node_sel p) = [0..<length ns] \<and>
             map label_datum (label_sel p) = [0..<length ns] \<and>
             map line_datum (link_sel p) = [0..<length rls] \<and>
             list_all2 (\<lambda>d l. node_id (nodes p ! source d) = source_id l \<and>
                              node_id (nodes p ! target d) = target_id l \<and>
                              link_type d = raw_type l) (links p) rls \<and>
             wf_page p"
proof -
  from assms obtain ls ts where ls: "forceLink ns rls = Inr ls"
    and ts: "those (map new_label (enumerate 0 ns)) = Some ts"
    using forceLink_Inr_iff[of ns rls] labels_Some_iff[of ns] by auto
  let ?p = "(start bs tt)\<lparr>nodes := ns, svg := True, running := True, links := ls,
       link_sel := map new_line (enumerate 0 ls),
       node_sel := map new_circle (enumerate 0 ns),
       label_sel := ts, tick_listener := True\<rparr>"
  have "setupVisualization rls ((start bs tt)\<lparr>nodes := ns\<rparr>) = Inr ?p"
    using ls ts by (simp add: setupVisualization_Inr)
  moreover have "init (Loaded \<lparr>doc_nodes = Some ns, doc_links = Some rls\<rparr>) (start bs tt) = ?p"
    using ls ts by (simp add: init_loaded_ok)
  moreover have "wf_page ?p"
    using ls ts by (rule wf_page_setup)
  moreover have "list_all2 (\<lambda>d l. node_id (ns ! source d) = source_id l \<and>
                              node_id (ns ! target d) = target_id l \<and>
                              link_type d = raw_type l) ls rls"
    using forceLink_resolved[OF ls] by (rule list_all2_mono) simp
  ultimately show ?thesis
    using forceLink_length[OF ls] labels_created(1,2)[OF ts] by (simp add: datum_enumerate)
qed

text \<open>
  At the sample data file, of three nodes and two links: three circles, three labels and
  two lines, bound in order.
\<close>

theorem well_formed_file_populates_witness:
  "endpoints_exist demo_nodes demo_links \<and>
   list_all named demo_nodes \<and>
   length (node_sel demo_page) = 3 \<and>
   length (label_sel demo_page) = 3 \<and>
   length (link_sel demo_page) = 2 \<and>
   map circle_datum (node_sel demo_page) = [0, 1, 2] \<and>
   map label_datum (label_sel demo_page) = [0, 1, 2] \<and>
   map line_datum (link_sel demo_page) = [0, 1] \<and>
   wf_page demo_page"
proof -
  have wf: "endpoints_exist demo_nodes demo_links"
    by code_simp
  have nm: "list_all named demo_nodes"
    by code_simp
  have n: "length demo_nodes = 3" "length demo_links = 2"
    "[0..<3] = [0, 1, 2]" "[0..<2] = [0, 1]"
    by code_simp+
  show ?thesis
    using well_formed_file_populates[OF wf nm, of demo_buttons demo_tooltip] wf nm n
    by (auto simp: demo_page_def)
qed

text \<open>
  Claim C3, as amended. \<^verbatim>\<open>init\<close> has one error path, the \<^verbatim>\<open>catch\<close> block, and every
  exception thrown inside the \<^verbatim>\<open>try\<close> block takes it, not a failed fetch or parse alone.
  The \<^verbatim>\<open>try\<close> block runs to its end exactly on the data files that have \<^verbatim>\<open>nodes\<close> and
  \<^verbatim>\<open>links\<close>, in which every link end names a node and every node has a name. On every
  other result of the fetch (the fetch or the parse fails, the parsed document has no
  \<^verbatim>\<open>nodes\<close> or no \<^verbatim>\<open>links\<close>, a link's source or target names no node so that the link
  force of the layout library throws, a record has no name so that line 84 throws) the
  container shows the static message and the document holds no \<^verbatim>\<open>svg\<close> element, no
  line, no circle and no label, and no tick listener is registered. Elements may have
  been created on the way: on a record without a name, in a file whose link ends all
  exist, the \<^verbatim>\<open>svg\<close> element, a line to every link and a circle to every node were
  created before the exception, and the simulation's timer runs; the \<^verbatim>\<open>catch\<close> block
  removes the elements from the document with the container's content. On a data file
  that loads the visualization is built from the records as they are, one circle and
  one label to a node and one line to a link: the script checks no record itself.
\<close>

theorem init_one_error_path:
  "((\<exists>p. try_init r (start bs tt) = Inr p) \<longleftrightarrow> loads r) \<and>
   (\<not> loads r \<longrightarrow>
      network_html (init r (start bs tt)) = Some error_message \<and>
      \<not> svg (init r (start bs tt)) \<and>
      link_sel (init r (start bs tt)) = [] \<and>
      node_sel (init r (start bs tt)) = [] \<and>
      label_sel (init r (start bs tt)) = [] \<and>
      \<not> tick_listener (init r (start bs tt))) \<and>
   (loads r \<longrightarrow>
      network_html (init r (start bs tt)) = None \<and>
      svg (init r (start bs tt)) \<and>
      tick_listener (init r (start bs tt)) \<and>
      (\<exists>ns rls. r = Loaded \<lparr>doc_nodes = Some ns, doc_links = Some rls\<rparr> \<and>
         nodes (init r (start bs tt)) = ns \<and>
         length (node_sel (init r (start bs tt))) = length ns \<and>
         length (label_sel (init r (start bs tt))) = length ns \<and>
         length (link_sel (init r (start bs tt))) = length rls)) \<and>
   (r = FetchFailed \<or> r = ParseFailed \<longrightarrow> \<not> loads r) \<and>
   (\<forall>ns rls. r = Loaded \<lparr>doc_nodes = Some ns, doc_links = Some rls\<rparr> \<and>
      endpoints_exist ns rls \<and> \<not> list_all named ns \<longrightarrow>
      (\<exists>p. try_init r (start bs tt) = Inl (TypeError, p) \<and>
           svg p \<and> running p \<and> \<not> tick_listener p \<and>
           length (link_sel p) = length rls \<and>
           length (node_sel p) = length ns \<and>
           label_sel p = []))"
proof -
  have nameless: "\<exists>p. try_init r (start bs tt) = Inl (TypeError, p) \<and>
           svg p \<and> running p \<and> \<not> tick_listener p \<and>
           length (link_sel p) = length rls \<and>
           length (node_sel p) = length ns \<and>
           label_sel p = []"
    if r: "r = Loaded \<lparr>doc_nodes = Some ns, doc_links = Some rls\<rparr>"
      and ends: "endpoints_exist ns rls" and names: "\<not> list_all named ns"
    for ns rls
  proof -
    obtain ls where ls: "forceLink ns rls = Inr ls"
      using ends forceLink_Inr_iff[of ns rls] by blast
    have none: "those (map new_label (enumerate 0 ns)) = None"
      using names labels_Some_iff[of ns] by (cases "those (map new_label (enumerate 0 ns))") auto
    show ?thesis
      using forceLink_length[OF ls]
      by (simp add: r try_init_def setupVisualization_nameless ls none start_def)
  qed
  show ?thesis
  proof (cases "loads r")
    case True
    then obtain ns rls ls ts where r: "r = Loaded \<lparr>doc_nodes = Some ns, doc_links = Some rls\<rparr>"
      and ls: "forceLink ns rls = Inr ls"
      and ts: "those (map new_label (enumerate 0 ns)) = Some ts"
      using loads_obtain by blast
    have "\<exists>p. try_init r (start bs tt) = Inr p"
      by (simp add: r try_init_def setupVisualization_Inr ls ts)
    moreover have "endpoints_exist ns rls \<and> list_all named ns"
      using True r by (simp add: loads_def)
    ultimately show ?thesis
      using True r forceLink_length[OF ls] labels_created(1)[OF ts]
      by (auto simp: init_loaded_ok[OF ls ts] start_def)
  next
    case False
    then obtain ns ls b where q: "init r (start bs tt) =
        (start bs tt)\<lparr>nodes := ns, links := ls, running := b,
           network_html := Some error_message\<rparr>"
      using init_failed by blast
    have "\<not> (\<exists>p. try_init r (start bs tt) = Inr p)"
    proof
      assume "\<exists>p. try_init r (start bs tt) = Inr p"
      then obtain p where "try_init r (start bs tt) = Inr p"
        by blast
      then have "network_html (init r (start bs tt)) = None"
        by (auto simp: init_def try_init_def setupVisualization_def start_def Let_def
            split: fetched.splits option.splits sum.splits)
      moreover have "network_html (init r (start bs tt)) = Some error_message"
        unfolding q by simp
      ultimately show False
        by simp
    qed
    then show ?thesis
      using False q nameless by (simp add: start_def)
  qed
qed

text \<open>
  The ways into the error path and the way past it, at sample inputs: a failed fetch, a
  failed parse, a document without \<^verbatim>\<open>nodes\<close>, a link to a saint that is not in the file,
  a record without a name, and the sample data file.
\<close>

theorem init_one_error_path_witness:
  "\<not> loads FetchFailed \<and>
   network_html (init FetchFailed (start demo_buttons demo_tooltip)) = Some error_message \<and>
   \<not> loads ParseFailed \<and>
   node_sel (init ParseFailed (start demo_buttons demo_tooltip)) = [] \<and>
   \<not> loads (Loaded \<lparr>doc_nodes = None, doc_links = Some demo_links\<rparr>) \<and>
   network_html (init (Loaded \<lparr>doc_nodes = None, doc_links = Some demo_links\<rparr>)
     (start demo_buttons demo_tooltip)) = Some error_message \<and>
   \<not> loads (Loaded \<lparr>doc_nodes = Some demo_nodes, doc_links = Some dangling_links\<rparr>) \<and>
   network_html (init (Loaded \<lparr>doc_nodes = Some demo_nodes, doc_links = Some dangling_links\<rparr>)
     (start demo_buttons demo_tooltip)) = Some error_message \<and>
   \<not> loads nameless_file \<and>
   endpoints_exist nameless_nodes demo_links \<and>
   \<not> list_all named nameless_nodes \<and>
   network_html (init nameless_file (start demo_buttons demo_tooltip)) = Some error_message \<and>
   node_sel (init nameless_file (start demo_buttons demo_tooltip)) = [] \<and>
   (\<exists>p. try_init nameless_file (start demo_buttons demo_tooltip) = Inl (TypeError, p) \<and>
        length (link_sel p) = 2 \<and> length (node_sel p) = 3) \<and>
   loads (Loaded \<lparr>doc_nodes = Some demo_nodes, doc_links = Some demo_links\<rparr>) \<and>
   network_html demo_page = None \<and> svg demo_page \<and> tick_listener demo_page"
proof -
  have l: "\<not> loads FetchFailed" "\<not> loads ParseFailed"
    "\<not> loads (Loaded \<lparr>doc_nodes = None, doc_links = Some demo_links\<rparr>)"
    "\<not> loads (Loaded \<lparr>doc_nodes = Some demo_nodes, doc_links = Some dangling_links\<rparr>)"
    "\<not> loads nameless_file"
    "loads (Loaded \<lparr>doc_nodes = Some demo_nodes, doc_links = Some demo_links\<rparr>)"
    by code_simp+
  have n: "endpoints_exist nameless_nodes demo_links" "\<not> list_all named nameless_nodes"
    "length nameless_nodes = 3" "length demo_links = 2"
    by code_simp+
  have f: "nameless_file = Loaded \<lparr>doc_nodes = Some nameless_nodes, doc_links = Some demo_links\<rparr>"
    by (simp add: nameless_file_def)
  have "\<forall>ns rls. nameless_file = Loaded \<lparr>doc_nodes = Some ns, doc_links = Some rls\<rparr> \<and>
      endpoints_exist ns rls \<and> \<not> list_all named ns \<longrightarrow>
      (\<exists>p. try_init nameless_file (start demo_buttons demo_tooltip) = Inl (TypeError, p) \<and>
           svg p \<and> running p \<and> \<not> tick_listener p \<and>
           length (link_sel p) = length rls \<and>
           length (node_sel p) = length ns \<and>
           label_sel p = [])"
    using init_one_error_path[of nameless_file demo_buttons demo_tooltip] by blast
  from this[rule_format, of nameless_nodes demo_links]
  have t: "\<exists>p. try_init nameless_file (start demo_buttons demo_tooltip) = Inl (TypeError, p) \<and>
        length (link_sel p) = 2 \<and> length (node_sel p) = 3"
    using f n by auto
  have "network_html (init nameless_file (start demo_buttons demo_tooltip)) = Some error_message \<and>
      node_sel (init nameless_file (start demo_buttons demo_tooltip)) = []"
    using init_one_error_path[of nameless_file demo_buttons demo_tooltip] l by blast
  with t show ?thesis
    using l n
      init_one_error_path[of FetchFailed demo_buttons demo_tooltip]
      init_one_error_path[of ParseFailed demo_buttons demo_tooltip]
      init_one_error_path[of "Loaded \<lparr>doc_nodes = None, doc_links = Some demo_links\<rparr>"
        demo_buttons demo_tooltip]
      init_one_error_path[of "Loaded \<lparr>doc_nodes = Some demo_nodes, doc_links = Some dangling_links\<rparr>"
        demo_buttons demo_tooltip]
      init_one_error_path[of "Loaded \<lparr>doc_nodes = Some demo_nodes, doc_links = Some demo_links\<rparr>"
        demo_buttons demo_tooltip]
    by (simp add: demo_page_def)
qed

text \<open>
  The claim as written has the error path taken on a failed fetch or parse and on nothing
  else, and no visual element created on it. A document that parses and has no \<^verbatim>\<open>nodes\<close>
  takes it too: the read of \<^verbatim>\<open>saintsData.nodes.length\<close> in line 29 throws inside the
  \<^verbatim>\<open>try\<close> block. So does the sample data file with Paul's record lacking its name: its
  two lines and three circles are created, line 84 throws, and the \<^verbatim>\<open>catch\<close> block puts
  the message in their place.
\<close>

theorem init_error_without_fetch_or_parse_failure:
  "network_html (init (Loaded \<lparr>doc_nodes = None, doc_links = None\<rparr>)
      (start demo_buttons demo_tooltip)) = Some error_message \<and>
   node_sel (init (Loaded \<lparr>doc_nodes = None, doc_links = None\<rparr>)
      (start demo_buttons demo_tooltip)) = [] \<and>
   Loaded \<lparr>doc_nodes = None, doc_links = None\<rparr> \<noteq> FetchFailed \<and>
   Loaded \<lparr>doc_nodes = None, doc_links = None\<rparr> \<noteq> ParseFailed \<and>
   isl (try_init nameless_file (start demo_buttons demo_tooltip)) \<and>
   fst (projl (try_init nameless_file (start demo_buttons demo_tooltip))) = TypeError \<and>
   svg (snd (projl (try_init nameless_file (start demo_buttons demo_tooltip)))) \<and>
   length (link_sel (snd (projl (try_init nameless_file (start demo_buttons demo_tooltip))))) = 2 \<and>
   length (node_sel (snd (projl (try_init nameless_file (start demo_buttons demo_tooltip))))) = 3 \<and>
   network_html (init nameless_file (start demo_buttons demo_tooltip)) = Some error_message \<and>
   \<not> svg (init nameless_file (start demo_buttons demo_tooltip)) \<and>
   node_sel (init nameless_file (start demo_buttons demo_tooltip)) = [] \<and>
   nameless_file \<noteq> FetchFailed \<and> nameless_file \<noteq> ParseFailed"
  by code_simp

subsection \<open>Reachable pages\<close>

lemma wf_page_updatePositions:
  assumes "wf_page p"
  shows "wf_page (updatePositions p)"
  using assms by (simp add: wf_page_iff updatePositions_def Let_def)

lemma wf_page_step:
  assumes "wf_page p"
  shows "wf_page (step e p)"
proof (cases e)
  case (Tick ps)
  then show ?thesis
    using assms
    by (simp add: wf_page_updatePositions wf_page_nodes_length length_engine)
next
  case Cooled
  then show ?thesis using assms by (simp add: wf_page_def)
next
  case (DragStart el)
  then show ?thesis
    using assms by (auto simp: wf_page_iff dragstarted_def Let_def)
next
  case (Drag s ex ey)
  then show ?thesis
    using assms by (auto simp: wf_page_iff dragged_def Let_def)
next
  case (DragEnd s)
  then show ?thesis
    using assms by (auto simp: wf_page_iff dragended_def Let_def dest: notin_set_remove1)
next
  case (MouseOver el px py)
  then show ?thesis
    using assms
    by (auto simp: wf_page_iff handleMouseOver_def dest!: set_update_subset_insert[THEN subsetD])
next
  case (MouseOut el px py)
  then show ?thesis
    using assms
    by (auto simp: wf_page_iff handleMouseOut_def dest!: set_update_subset_insert[THEN subsetD])
next
  case (LinkMouseOver el px py)
  then show ?thesis
    using assms
    by (auto simp: wf_page_iff handleLinkMouseOver_def
        dest!: set_update_subset_insert[THEN subsetD])
next
  case (LinkMouseOut el px py)
  then show ?thesis
    using assms
    by (auto simp: wf_page_iff handleLinkMouseOut_def
        dest!: set_update_subset_insert[THEN subsetD])
next
  case ClickFilterAll
  then show ?thesis
    using assms by (auto simp: wf_page_iff filterAll_def Let_def updateButtons_fields)
next
  case (ClickFilterByType ty)
  then show ?thesis
    using assms by (auto simp: wf_page_iff filterByType_def Let_def updateButtons_fields)
qed

lemma wf_page_run: "wf_page p \<Longrightarrow> wf_page (run es p)"
  unfolding run_def by (induction es arbitrary: p) (simp_all add: wf_page_step)

text \<open>Every page the program can reach has its references in range.\<close>

lemma wf_page_reachable: "wf_page (run es (init r (start bs tt)))"
  by (intro wf_page_run wf_page_init)

subsection \<open>The position clamp\<close>

lemma placed_constrain:
  "fits d \<Longrightarrow> placed (constrain d) (Some (node_x (constrain d))) (Some (node_y (constrain d)))"
  by (auto simp: placed_def fits_def within_x_def within_y_def constrain_def)

lemma fits_constrain: "fits (constrain d) = fits d"
  by (simp add: fits_def constrain_def)

lemma tick_nodes_placed:
  "list_all (\<lambda>d. fits d \<longrightarrow> placed d (Some (node_x d)) (Some (node_y d)))
     (nodes (updatePositions p))"
  by (auto simp: nodes_updatePositions list_all_iff placed_constrain fits_constrain)

lemma tick_circles_placed:
  assumes "wf_page p"
  shows "list_all (\<lambda>c. fits (nodes (updatePositions p) ! circle_datum c) \<longrightarrow>
                      placed (nodes (updatePositions p) ! circle_datum c)
                        (circle_cx c) (circle_cy c))
           (node_sel (updatePositions p))"
proof -
  have "circle_datum c < length (nodes p)" if "c \<in> set (node_sel p)" for c
    using assms that by (rule wf_pageD(3))
  then show ?thesis
    by (auto simp: updatePositions_def Let_def list_all_iff placed_constrain fits_constrain)
qed

lemma tick_labels_placed:
  assumes "wf_page p"
  shows "list_all (\<lambda>t. fits (nodes (updatePositions p) ! label_datum t) \<longrightarrow>
                      placed (nodes (updatePositions p) ! label_datum t)
                        (label_x t) (label_y t))
           (label_sel (updatePositions p))"
proof -
  have "label_datum t < length (nodes p)" if "t \<in> set (label_sel p)" for t
    using assms that by (rule wf_pageD(4))
  then show ?thesis
    by (auto simp: updatePositions_def Let_def list_all_iff placed_constrain fits_constrain)
qed

lemma tick_lines_placed:
  assumes "wf_page p"
  shows "list_all
           (\<lambda>l. (fits (nodes (updatePositions p) ! source (links (updatePositions p) ! line_datum l)) \<longrightarrow>
                  placed (nodes (updatePositions p) ! source (links (updatePositions p) ! line_datum l))
                    (line_x1 l) (line_y1 l)) \<and>
                (fits (nodes (updatePositions p) ! target (links (updatePositions p) ! line_datum l)) \<longrightarrow>
                  placed (nodes (updatePositions p) ! target (links (updatePositions p) ! line_datum l))
                    (line_x2 l) (line_y2 l)))
           (link_sel (updatePositions p))"
proof -
  have "source (links p ! line_datum l) < length (nodes p) \<and>
        target (links p ! line_datum l) < length (nodes p)" if "l \<in> set (link_sel p)" for l
    using wf_page_link_ends[OF assms that] by simp
  then show ?thesis
    by (auto simp: updatePositions_def Let_def list_all_iff placed_constrain fits_constrain)
qed

lemma dragged_placed:
  assumes "subject ev < length (nodes p)" and "fits (nodes p ! subject ev)"
  shows "placed (nodes (dragged ev p) ! subject ev)
           (node_fx (nodes (dragged ev p) ! subject ev))
           (node_fy (nodes (dragged ev p) ! subject ev))"
  using assms(2) unfolding dragged_subject[OF assms(1)]
  by (auto simp: placed_def fits_def within_x_def within_y_def)

text \<open>
  A node of non-negative radius that is within the viewport, the radius accounted for,
  lies in the rectangle from \<open>(0, 0)\<close> to \<open>(width, height)\<close>.
\<close>

lemma placed_in_rectangle:
  assumes "placed d (Some vx) (Some vy)" and "0 \<le> node_size d"
  shows "0 \<le> vx \<and> vx \<le> width \<and> 0 \<le> vy \<and> vy \<le> height"
  using assms by (auto simp: placed_def within_x_def within_y_def)

lemma drawn_at_cong:
  assumes "node_size (nodes q ! k) = node_size (nodes p ! k)"
  shows "drawn_at q k ox oy = drawn_at p k ox oy"
  using assms
  by (auto simp: drawn_at_def drawn_def fits_def placed_def within_x_def within_y_def
      split: option.splits)

lemma rendered_ok_places:
  "rendered_ok p \<longleftrightarrow>
     list_all (\<lambda>(k, ox, oy). drawn_at p k ox oy) (map circle_place (node_sel p)) \<and>
     list_all (\<lambda>(k, ox, oy). drawn_at p k ox oy) (map label_place (label_sel p)) \<and>
     list_all (\<lambda>(j, a1, b1, a2, b2).
                 drawn_at p (source (links p ! j)) a1 b1 \<and>
                 drawn_at p (target (links p ! j)) a2 b2)
       (map line_place (link_sel p))"
  by (simp add: rendered_ok_def list_all_iff circle_place_def label_place_def line_place_def)

text \<open>
  Whether the drawn positions are in order depends on the sizes of the nodes, the ends of
  the links and the datum and position of each element, and on nothing else.
\<close>

lemma rendered_ok_cong:
  assumes ok: "rendered_ok p"
    and sizes: "\<And>k. node_size (nodes q ! k) = node_size (nodes p ! k)"
    and links: "links q = links p"
    and circles: "map circle_place (node_sel q) = map circle_place (node_sel p)"
    and labels: "map label_place (label_sel q) = map label_place (label_sel p)"
    and lines: "map line_place (link_sel q) = map line_place (link_sel p)"
  shows "rendered_ok q"
proof -
  have "drawn_at q = drawn_at p"
    by (intro ext drawn_at_cong sizes)
  then show ?thesis
    using ok unfolding rendered_ok_places links circles labels lines by simp
qed

lemma size_list_update:
  assumes "node_size d' = node_size (ns ! s)"
  shows "node_size (ns[s := d'] ! k) = node_size (ns ! k)"
proof (cases "s < length ns")
  case True
  then show ?thesis
    using assms by (cases "k = s") simp_all
next
  case False
  then show ?thesis by (simp add: list_update_beyond)
qed

lemma map_list_update_same:
  assumes "f v = f (xs ! i)"
  shows "map f (xs[i := v]) = map f xs"
proof (cases "i < length xs")
  case True
  then show ?thesis
    using assms by (simp add: map_update list_update_same_conv)
next
  case False
  then show ?thesis by (simp add: list_update_beyond)
qed

lemma place_list_update:
  "circle_place c' = circle_place (cs ! el) \<Longrightarrow>
     map circle_place (cs[el := c']) = map circle_place cs"
  "line_place l' = line_place (ls ! el) \<Longrightarrow>
     map line_place (ls[el := l']) = map line_place ls"
  by (rule map_list_update_same, assumption)+

lemma placed_drawn: "placed d ox oy \<Longrightarrow> drawn d ox oy"
  by (simp add: drawn_def)

lemma rendered_ok_updatePositions:
  assumes "wf_page p"
  shows "rendered_ok (updatePositions p)"
  using tick_circles_placed[OF assms] tick_labels_placed[OF assms] tick_lines_placed[OF assms]
  by (simp add: rendered_ok_def drawn_at_def list_all_iff placed_drawn)

lemma size_engine: "k < length ns \<Longrightarrow> node_size (engine ps ns ! k) = node_size (ns ! k)"
  by (simp add: engine_def nth_enumerate_eq)

text \<open>
  When the engine moves the nodes and no tick listener is called, nothing is drawn anew.
\<close>

lemma rendered_ok_engine:
  assumes wf: "wf_page p" and ok: "rendered_ok p"
  shows "rendered_ok (p\<lparr>nodes := engine ps (nodes p)\<rparr>)"
proof -
  have same: "drawn_at (p\<lparr>nodes := engine ps (nodes p)\<rparr>) k ox oy = drawn_at p k ox oy"
    if "k < length (nodes p)" for k ox oy
    by (rule drawn_at_cong) (simp add: size_engine that)
  have c: "circle_datum c < length (nodes p)" if "c \<in> set (node_sel p)" for c
    using wf that by (rule wf_pageD(3))
  have t: "label_datum t < length (nodes p)" if "t \<in> set (label_sel p)" for t
    using wf that by (rule wf_pageD(4))
  have l: "source (links p ! line_datum l) < length (nodes p)"
    "target (links p ! line_datum l) < length (nodes p)" if "l \<in> set (link_sel p)" for l
    using wf_page_link_ends[OF wf that] by simp_all
  show ?thesis
    using ok by (simp add: rendered_ok_def list_all_iff same c t l)
qed

lemma rendered_ok_init: "rendered_ok (init r (start bs tt))"
proof (cases "loads r")
  case True
  then obtain ns rls ls ts where "r = Loaded \<lparr>doc_nodes = Some ns, doc_links = Some rls\<rparr>"
    and ls: "forceLink ns rls = Inr ls"
    and ts: "those (map new_label (enumerate 0 ns)) = Some ts"
    using loads_obtain by blast
  then show ?thesis
    using labels_created(3)[OF ts]
    by (auto simp: init_loaded_ok[OF ls ts] rendered_ok_def drawn_at_def drawn_def list_all_iff
        new_circle_def new_line_def)
next
  case False
  then obtain ns ls b where "init r (start bs tt) =
      (start bs tt)\<lparr>nodes := ns, links := ls, running := b,
         network_html := Some error_message\<rparr>"
    using init_failed by blast
  then show ?thesis
    by (simp add: rendered_ok_def start_def)
qed

lemma rendered_ok_step:
  assumes wf: "wf_page p" and ok: "rendered_ok p"
  shows "rendered_ok (step e p)"
proof (cases e)
  case (Tick ps)
  have "wf_page (p\<lparr>nodes := engine ps (nodes p)\<rparr>)"
    using wf by (simp add: wf_page_nodes_length length_engine)
  then show ?thesis
    using Tick wf ok by (simp add: rendered_ok_updatePositions rendered_ok_engine)
next
  case Cooled
  then show ?thesis
    using ok by (simp add: rendered_ok_def drawn_at_def)
next
  case (DragStart el)
  show ?thesis
  proof (cases "el < length (node_sel p)")
    case True
    show ?thesis
      unfolding DragStart step.simps if_P[OF True] Let_def
      by (rule rendered_ok_cong[OF ok])
         (simp_all add: nodes_dragstarted size_list_update, simp_all add: dragstarted_def Let_def)
  next
    case False
    then show ?thesis using DragStart ok by simp
  qed
next
  case (Drag s ex ey)
  show ?thesis
  proof (cases "s \<in> set (gestures p)")
    case True
    show ?thesis
      unfolding Drag step.simps if_P[OF True]
      by (rule rendered_ok_cong[OF ok])
         (simp_all add: nodes_dragged size_list_update, simp_all add: dragged_def Let_def)
  next
    case False
    then show ?thesis using Drag ok by simp
  qed
next
  case (DragEnd s)
  show ?thesis
  proof (cases "s \<in> set (gestures p)")
    case True
    show ?thesis
      unfolding DragEnd step.simps if_P[OF True]
      by (rule rendered_ok_cong[OF ok])
         (simp_all add: nodes_dragended size_list_update, simp_all add: dragended_def Let_def)
  next
    case False
    then show ?thesis using DragEnd ok by simp
  qed
next
  case (MouseOver el px py)
  show ?thesis
  proof (cases "el < length (node_sel p)")
    case True
    show ?thesis
      unfolding MouseOver step.simps if_P[OF True]
      by (rule rendered_ok_cong[OF ok])
         (simp_all add: handleMouseOver_def place_list_update circle_place_def)
  next
    case False
    then show ?thesis using MouseOver ok by simp
  qed
next
  case (MouseOut el px py)
  show ?thesis
  proof (cases "el < length (node_sel p)")
    case True
    show ?thesis
      unfolding MouseOut step.simps if_P[OF True]
      by (rule rendered_ok_cong[OF ok])
         (simp_all add: handleMouseOut_def place_list_update circle_place_def)
  next
    case False
    then show ?thesis using MouseOut ok by simp
  qed
next
  case (LinkMouseOver el px py)
  show ?thesis
  proof (cases "el < length (link_sel p)")
    case True
    show ?thesis
      unfolding LinkMouseOver step.simps if_P[OF True]
      by (rule rendered_ok_cong[OF ok])
         (simp_all add: handleLinkMouseOver_def place_list_update line_place_def)
  next
    case False
    then show ?thesis using LinkMouseOver ok by simp
  qed
next
  case (LinkMouseOut el px py)
  show ?thesis
  proof (cases "el < length (link_sel p)")
    case True
    show ?thesis
      unfolding LinkMouseOut step.simps if_P[OF True]
      by (rule rendered_ok_cong[OF ok])
         (simp_all add: handleLinkMouseOut_def place_list_update line_place_def)
  next
    case False
    then show ?thesis using LinkMouseOut ok by simp
  qed
next
  case ClickFilterAll
  show ?thesis
    unfolding ClickFilterAll step.simps
    by (rule rendered_ok_cong[OF ok])
       (simp_all add: filterAll_def Let_def updateButtons_fields o_def
          circle_place_def label_place_def line_place_def)
next
  case (ClickFilterByType ty)
  show ?thesis
    unfolding ClickFilterByType step.simps
    by (rule rendered_ok_cong[OF ok])
       (simp_all add: filterByType_def Let_def updateButtons_fields o_def
          circle_place_def label_place_def line_place_def)
qed

lemma rendered_ok_run:
  "wf_page p \<Longrightarrow> rendered_ok p \<Longrightarrow> rendered_ok (run es p)"
  unfolding run_def
  by (induction es arbitrary: p) (simp_all add: rendered_ok_step wf_page_step)

lemma rendered_ok_reachable: "rendered_ok (run es (init r (start bs tt)))"
  by (intro rendered_ok_run wf_page_init rendered_ok_init)

text \<open>
  Claim C1, as amended. The claim as it is written promises every node a position between
  \<^verbatim>\<open>size\<close> and \<^verbatim>\<open>width - size\<close> (and \<^verbatim>\<open>height - size\<close>) after every tick and drag step;
  a node wider than the viewport has no such position, and the clamp puts it at
  \<^verbatim>\<open>size\<close>. For every node that fits the viewport the promise holds. After
  \<^verbatim>\<open>updatePositions\<close>, on a page whose references are in range, the node's \<open>x\<close> and \<open>y\<close>
  are within the viewport, the radius accounted for, and so are the position written to
  every circle and label bound to it and to the end of every line that it is the source
  or target of; after \<^verbatim>\<open>dragged\<close>, the pinned position \<open>fx\<close>, \<open>fy\<close> of the subject is
  within the viewport in the same sense. So on every page reached from \<^verbatim>\<open>init\<close> by any
  sequence of ticks, drags and other events the references are in range, and every
  circle, label and line end of a node that fits is drawn within the viewport, once it
  has been drawn at all.
\<close>

theorem positions_within_viewport:
  assumes "wf_page p"
  shows "list_all (\<lambda>d. fits d \<longrightarrow> placed d (Some (node_x d)) (Some (node_y d)))
           (nodes (updatePositions p)) \<and>
         list_all (\<lambda>c. fits (nodes (updatePositions p) ! circle_datum c) \<longrightarrow>
                      placed (nodes (updatePositions p) ! circle_datum c)
                        (circle_cx c) (circle_cy c))
           (node_sel (updatePositions p)) \<and>
         list_all (\<lambda>t. fits (nodes (updatePositions p) ! label_datum t) \<longrightarrow>
                      placed (nodes (updatePositions p) ! label_datum t)
                        (label_x t) (label_y t))
           (label_sel (updatePositions p)) \<and>
         list_all
           (\<lambda>l. (fits (nodes (updatePositions p) ! source (links (updatePositions p) ! line_datum l)) \<longrightarrow>
                  placed (nodes (updatePositions p) ! source (links (updatePositions p) ! line_datum l))
                    (line_x1 l) (line_y1 l)) \<and>
                (fits (nodes (updatePositions p) ! target (links (updatePositions p) ! line_datum l)) \<longrightarrow>
                  placed (nodes (updatePositions p) ! target (links (updatePositions p) ! line_datum l))
                    (line_x2 l) (line_y2 l)))
           (link_sel (updatePositions p)) \<and>
         (\<forall>ev. subject ev < length (nodes p) \<and> fits (nodes p ! subject ev) \<longrightarrow>
            placed (nodes (dragged ev p) ! subject ev)
              (node_fx (nodes (dragged ev p) ! subject ev))
              (node_fy (nodes (dragged ev p) ! subject ev))) \<and>
         wf_page (run es (init r (start bs tt))) \<and>
         rendered_ok (run es (init r (start bs tt)))"
  using tick_nodes_placed[of p] tick_circles_placed[OF assms] tick_labels_placed[OF assms]
    tick_lines_placed[OF assms] dragged_placed[of _ p] wf_page_reachable[of es r bs tt]
    rendered_ok_reachable[of es r bs tt]
  by blast

text \<open>
  The theorem at the sample page: its three nodes fit, the tick listener moves Peter from
  \<open>(1300, -40)\<close> to \<open>(1175, 25)\<close> and Augustine from \<open>(10, 690)\<close> to \<open>(20, 680)\<close>, and
  every node and circle is within the viewport. Peter dragged to \<open>(5000, -3)\<close> is drawn
  at \<open>(1175, 25)\<close> by the next tick.
\<close>

theorem positions_within_viewport_witness:
  "wf_page demo_page \<and>
   list_all fits (nodes (updatePositions demo_page)) \<and>
   map (\<lambda>d. (node_x d, node_y d)) (nodes (updatePositions demo_page)) =
     [(1175, 25), (600, 350), (20, 680)] \<and>
   list_all (\<lambda>d. placed d (Some (node_x d)) (Some (node_y d)))
     (nodes (updatePositions demo_page)) \<and>
   list_all (\<lambda>c. placed (nodes (updatePositions demo_page) ! circle_datum c)
               (circle_cx c) (circle_cy c))
     (node_sel (updatePositions demo_page)) \<and>
   map (\<lambda>c. (circle_cx c, circle_cy c))
     (node_sel (run [Tick [(600, 350)], DragStart 0, Drag 0 5000 (-3), Tick []] demo_page)) =
     [(Some 1175, Some 25), (Some 600, Some 350), (Some 20, Some 680)] \<and>
   rendered_ok (run [Tick [(600, 350)], DragStart 0, Drag 0 5000 (-3), Tick []] demo_page)"
proof -
  have fit: "list_all fits (nodes (updatePositions demo_page))"
    by code_simp
  have pos: "map (\<lambda>d. (node_x d, node_y d)) (nodes (updatePositions demo_page)) =
     [(1175, 25), (600, 350), (20, 680)]"
    by code_simp
  have dat: "list_all (\<lambda>c. fits (nodes (updatePositions demo_page) ! circle_datum c))
     (node_sel (updatePositions demo_page))"
    by code_simp
  have drag: "map (\<lambda>c. (circle_cx c, circle_cy c))
     (node_sel (run [Tick [(600, 350)], DragStart 0, Drag 0 5000 (-3), Tick []] demo_page)) =
     [(Some 1175, Some 25), (Some 600, Some 350), (Some 20, Some 680)]"
    by code_simp
  show ?thesis
    using positions_within_viewport[OF wf_demo_page,
        of "[Tick [(600, 350)], DragStart 0, Drag 0 5000 (-3), Tick []]"
        "Loaded \<lparr>doc_nodes = Some demo_nodes, doc_links = Some demo_links\<rparr>"
        demo_buttons demo_tooltip]
      wf_demo_page fit pos dat drag
    by (simp add: list_all_iff demo_page_def)
qed

text \<open>
  The claim as written fails for a node of radius 400: the engine puts it at the centre
  \<open>(600, 350)\<close>, the tick listener moves it to \<open>y = 400\<close> and draws its circle there, and
  400 is above \<^verbatim>\<open>height - size\<close>, which is 300.
\<close>

theorem oversized_node_leaves_viewport:
  "node_size (nodes (step (Tick [(600, 350)]) wide_page) ! 0) = 400 \<and>
   node_y (nodes (step (Tick [(600, 350)]) wide_page) ! 0) = 400 \<and>
   circle_cy (node_sel (step (Tick [(600, 350)]) wide_page) ! 0) = Some 400 \<and>
   \<not> within_y (nodes (step (Tick [(600, 350)]) wide_page) ! 0)
        (node_y (nodes (step (Tick [(600, 350)]) wide_page) ! 0))"
  by code_simp

text \<open>
  Claim C9. The clamp keeps a coordinate between \<^verbatim>\<open>size\<close> and \<^verbatim>\<open>width - size\<close> (for
  \<open>y\<close>: \<^verbatim>\<open>height - size\<close>) exactly for the nodes with \<^verbatim>\<open>2 * size <= width\<close> (for \<open>y\<close>:
  \<^verbatim>\<open>2 * size <= height\<close>). For a node whose size is more than half the viewport's
  dimension the clamp gives \<^verbatim>\<open>size\<close>, which is more than \<^verbatim>\<open>width - size\<close>: the node is
  placed outside the bounds, not rejected. This holds of \<^verbatim>\<open>updatePositions\<close>, for \<open>x\<close>
  and \<open>y\<close>, and of \<^verbatim>\<open>dragged\<close>, for \<open>fx\<close> and \<open>fy\<close>.
\<close>

theorem clamp_guarantee_needs_fit:
  assumes "i < length (nodes p)" and "subject ev < length (nodes p)"
  shows "(let d = nodes p ! i; d' = nodes (updatePositions p) ! i in
           (2 * node_size d \<le> width \<longrightarrow> within_x d (node_x d')) \<and>
           (width < 2 * node_size d \<longrightarrow>
              node_x d' = node_size d \<and> width - node_size d < node_x d') \<and>
           (2 * node_size d \<le> height \<longrightarrow> within_y d (node_y d')) \<and>
           (height < 2 * node_size d \<longrightarrow>
              node_y d' = node_size d \<and> height - node_size d < node_y d')) \<and>
         (let d = nodes p ! subject ev; d' = nodes (dragged ev p) ! subject ev in
           (2 * node_size d \<le> width \<longrightarrow> (\<exists>v. node_fx d' = Some v \<and> within_x d v)) \<and>
           (width < 2 * node_size d \<longrightarrow>
              node_fx d' = Some (node_size d) \<and> width - node_size d < node_size d) \<and>
           (2 * node_size d \<le> height \<longrightarrow> (\<exists>v. node_fy d' = Some v \<and> within_y d v)) \<and>
           (height < 2 * node_size d \<longrightarrow>
              node_fy d' = Some (node_size d) \<and> height - node_size d < node_size d))"
proof -
  have tick: "nodes (updatePositions p) ! i = constrain (nodes p ! i)"
    using assms(1) by (simp add: nodes_updatePositions)
  show ?thesis
    unfolding Let_def tick dragged_subject[OF assms(2)]
    by (auto simp: constrain_def within_x_def within_y_def)
qed

text \<open>
  Both sides at the sample pages: Peter (radius 25) comes to rest at \<open>x = 1175\<close>, within
  the bounds; the node of radius 400 comes to rest at \<open>y = 400\<close>, above
  \<^verbatim>\<open>height - size\<close>.
\<close>

theorem clamp_guarantee_needs_fit_witness:
  "0 < length (nodes demo_page) \<and>
   2 * node_size (nodes demo_page ! 0) \<le> width \<and>
   node_x (nodes demo_page ! 0) = 1300 \<and>
   node_x (nodes (updatePositions demo_page) ! 0) = 1175 \<and>
   within_x (nodes demo_page ! 0) (node_x (nodes (updatePositions demo_page) ! 0)) \<and>
   0 < length (nodes wide_page) \<and>
   height < 2 * node_size (nodes wide_page ! 0) \<and>
   node_y (nodes (updatePositions wide_page) ! 0) = 400 \<and>
   height - node_size (nodes wide_page ! 0) < node_y (nodes (updatePositions wide_page) ! 0)"
proof -
  have a: "0 < length (nodes demo_page)"
    by (simp add: demo_page_nodes demo_nodes_def)
  have b: "0 < length (nodes wide_page)"
    by (simp add: wide_page_nodes wide_nodes_def)
  have c: "subject \<lparr>subject = 0, active = 0, event_x = 0, event_y = 0\<rparr> < length (nodes demo_page)"
    by (simp add: demo_page_nodes demo_nodes_def)
  have d: "subject \<lparr>subject = 0, active = 0, event_x = 0, event_y = 0\<rparr> < length (nodes wide_page)"
    by (simp add: wide_page_nodes wide_nodes_def)
  show ?thesis
    using clamp_guarantee_needs_fit[OF a c] clamp_guarantee_needs_fit[OF b d] a b
    by (simp add: Let_def nodes_updatePositions demo_page_nodes wide_page_nodes demo_nodes_def
        wide_nodes_def constrain_def width_def height_def)
qed

subsection \<open>Pinned positions\<close>

lemma pins_ok_iff:
  "pins_ok p \<longleftrightarrow> (\<forall>i < length (nodes p). unpinned (nodes p ! i) \<or> i \<in> set (gestures p))"
  by (auto simp: pins_ok_def list_all_iff in_set_enumerate_eq)

lemma pins_okI:
  assumes "\<And>i. i < length (nodes q) \<Longrightarrow> unpinned (nodes q ! i) \<or> i \<in> set (gestures q)"
  shows "pins_ok q"
  using assms by (simp add: pins_ok_iff)

lemma pins_okD:
  assumes "pins_ok p" and "i < length (nodes p)"
  shows "unpinned (nodes p ! i) \<or> i \<in> set (gestures p)"
  using assms by (simp add: pins_ok_iff)

lemma unpinned_engine: "i < length ns \<Longrightarrow> unpinned (engine ps ns ! i) = unpinned (ns ! i)"
  by (simp add: engine_def unpinned_def nth_enumerate_eq)

lemma unpinned_constrain: "unpinned (constrain d) = unpinned d"
  by (simp add: unpinned_def constrain_def)

text \<open>
  A write to one node keeps the pins in order when the node written is unpinned after it
  or is the subject of a gesture, and no other node leaves the gestures.
\<close>

lemma pins_ok_list_update:
  assumes ok: "pins_ok p"
    and n: "nodes q = (nodes p)[s := d']"
    and s: "unpinned d' \<or> s \<in> set (gestures q)"
    and g: "\<And>i. i \<noteq> s \<Longrightarrow> i \<in> set (gestures p) \<Longrightarrow> i \<in> set (gestures q)"
  shows "pins_ok q"
proof (rule pins_okI)
  fix i
  assume "i < length (nodes q)"
  then have i: "i < length (nodes p)"
    using n by simp
  show "unpinned (nodes q ! i) \<or> i \<in> set (gestures q)"
  proof (cases "i = s")
    case True
    then show ?thesis using i n s by simp
  next
    case False
    then have "nodes q ! i = nodes p ! i"
      using n by simp
    then show ?thesis
      using pins_okD[OF ok i] g[OF False] by auto
  qed
qed

lemma pins_ok_tick:
  assumes "pins_ok p"
  shows "pins_ok (updatePositions (p\<lparr>nodes := engine ps (nodes p)\<rparr>))"
  using assms
  by (simp add: pins_ok_iff nodes_updatePositions length_engine unpinned_constrain
      unpinned_engine updatePositions_def Let_def)

lemma pins_ok_engine:
  assumes "pins_ok p"
  shows "pins_ok (p\<lparr>nodes := engine ps (nodes p)\<rparr>)"
  using assms by (simp add: pins_ok_iff length_engine unpinned_engine)

lemma pins_ok_dragstarted:
  assumes "pins_ok p"
  shows "pins_ok (dragstarted \<lparr>subject = s, active = a, event_x = ex, event_y = ey\<rparr>
                   (p\<lparr>gestures := s # gestures p\<rparr>))"
  by (rule pins_ok_list_update[OF assms, where s = s])
     (simp_all add: nodes_dragstarted gestures_dragstarted)

lemma pins_ok_dragged:
  assumes "pins_ok p" and "s \<in> set (gestures p)"
  shows "pins_ok (dragged \<lparr>subject = s, active = a, event_x = ex, event_y = ey\<rparr> p)"
  by (rule pins_ok_list_update[OF assms(1), where s = s])
     (simp_all add: nodes_dragged gestures_dragged assms(2))

lemma pins_ok_dragended:
  assumes "pins_ok p"
  shows "pins_ok (dragended \<lparr>subject = s, active = a, event_x = ex, event_y = ey\<rparr>
                   (p\<lparr>gestures := remove1 s (gestures p)\<rparr>))"
  by (rule pins_ok_list_update[OF assms, where s = s])
     (auto simp: nodes_dragended gestures_dragended unpinned_def)

lemma pins_ok_cong:
  assumes "pins_ok p" and "nodes q = nodes p" and "gestures q = gestures p"
  shows "pins_ok q"
  using assms by (simp add: pins_ok_def)

lemma pins_ok_step:
  assumes "pins_ok p"
  shows "pins_ok (step e p)"
proof (cases e)
  case (Tick ps)
  then show ?thesis using assms by (simp add: pins_ok_tick pins_ok_engine)
next
  case Cooled
  then show ?thesis using assms by (simp add: pins_ok_def)
next
  case (DragStart el)
  then show ?thesis using assms pins_ok_dragstarted by (simp add: Let_def)
next
  case (Drag s ex ey)
  then show ?thesis using assms pins_ok_dragged by simp
next
  case (DragEnd s)
  then show ?thesis using assms pins_ok_dragended by simp
next
  case (MouseOver el px py)
  then show ?thesis
    using assms by (auto intro: pins_ok_cong simp: handleMouseOver_def)
next
  case (MouseOut el px py)
  then show ?thesis
    using assms by (auto intro: pins_ok_cong simp: handleMouseOut_def)
next
  case (LinkMouseOver el px py)
  then show ?thesis
    using assms by (auto intro: pins_ok_cong simp: handleLinkMouseOver_def)
next
  case (LinkMouseOut el px py)
  then show ?thesis
    using assms by (auto intro: pins_ok_cong simp: handleLinkMouseOut_def)
next
  case ClickFilterAll
  then show ?thesis
    using assms
    by (auto intro: pins_ok_cong simp: filterAll_def Let_def updateButtons_def)
next
  case (ClickFilterByType ty)
  then show ?thesis
    using assms
    by (auto intro: pins_ok_cong simp: filterByType_def Let_def updateButtons_def)
qed

lemma pins_ok_run: "pins_ok p \<Longrightarrow> pins_ok (run es p)"
  unfolding run_def by (induction es arbitrary: p) (simp_all add: pins_ok_step)

lemma pins_ok_init:
  assumes "unpinned_data r"
  shows "pins_ok (init r (start bs tt))"
proof -
  have "list_all unpinned (nodes (init r (start bs tt)))"
    using assms
    by (auto simp: init_def try_init_def setupVisualization_def set_innerHTML_def start_def
        Let_def unpinned_data_def split: fetched.splits option.splits sum.splits prod.splits)
  then show ?thesis
    by (auto simp: pins_ok_def list_all_iff in_set_enumerate_eq)
qed

text \<open>
  Claim C6, as amended. The claim as it is written holds of no data file that pins a node
  itself, and its \<^verbatim>\<open>dragged\<close> keeps the pin within the viewport only for a node that fits
  it. Let the data file pin no node (the data model has \<open>fx\<close> and \<open>fy\<close> written by the
  engine and the drag listeners only, and the engine writes neither). Then after \<^verbatim>\<open>init\<close>
  and any sequence of events (ticks, drag gestures, hovers, filter clicks), a node whose
  \<open>fx\<close> or \<open>fy\<close> is not \<^verbatim>\<open>null\<close> is the subject of a drag gesture in progress, so that
  with no gesture in progress no node is pinned. No event breaks this on any page. Of
  the three drag listeners, \<^verbatim>\<open>dragstarted\<close> sets the subject's \<open>fx\<close> and \<open>fy\<close> to its
  current \<open>x\<close> and \<open>y\<close>, \<^verbatim>\<open>dragged\<close> sets them to the pointer's position clamped between
  \<^verbatim>\<open>size\<close> and \<^verbatim>\<open>width - size\<close> (\<^verbatim>\<open>height - size\<close>), which is within the viewport, the
  radius accounted for, when the subject fits the viewport, and \<^verbatim>\<open>dragended\<close> sets both
  to \<^verbatim>\<open>null\<close>.
\<close>

theorem pinned_only_while_dragged:
  assumes "unpinned_data r"
  shows "pins_ok (run es (init r (start bs tt))) \<and>
         (gestures (run es (init r (start bs tt))) = [] \<longrightarrow>
            list_all unpinned (nodes (run es (init r (start bs tt))))) \<and>
         (\<forall>e p. pins_ok p \<longrightarrow> pins_ok (step e p)) \<and>
         (\<forall>ev p. subject ev < length (nodes p) \<longrightarrow>
            node_fx (nodes (dragstarted ev p) ! subject ev) =
              Some (node_x (nodes p ! subject ev)) \<and>
            node_fy (nodes (dragstarted ev p) ! subject ev) =
              Some (node_y (nodes p ! subject ev)) \<and>
            node_fx (nodes (dragged ev p) ! subject ev) =
              Some (max (node_size (nodes p ! subject ev))
                     (min (width - node_size (nodes p ! subject ev)) (event_x ev))) \<and>
            node_fy (nodes (dragged ev p) ! subject ev) =
              Some (max (node_size (nodes p ! subject ev))
                     (min (height - node_size (nodes p ! subject ev)) (event_y ev))) \<and>
            (fits (nodes p ! subject ev) \<longrightarrow>
               placed (nodes p ! subject ev)
                 (node_fx (nodes (dragged ev p) ! subject ev))
                 (node_fy (nodes (dragged ev p) ! subject ev))) \<and>
            unpinned (nodes (dragended ev p) ! subject ev))"
proof -
  have ok: "pins_ok (run es (init r (start bs tt)))"
    using assms by (intro pins_ok_run pins_ok_init)
  then have free: "gestures (run es (init r (start bs tt))) = [] \<longrightarrow>
      list_all unpinned (nodes (run es (init r (start bs tt))))"
    by (auto simp: pins_ok_iff list_all_length)
  have clamp: "placed (nodes p ! subject ev)
                 (node_fx (nodes (dragged ev p) ! subject ev))
                 (node_fy (nodes (dragged ev p) ! subject ev))"
    if "subject ev < length (nodes p)" and "fits (nodes p ! subject ev)" for ev p
    using that(2) unfolding dragged_subject[OF that(1)]
    by (auto simp: placed_def fits_def within_x_def within_y_def)
  show ?thesis
    using ok free clamp
    by (simp add: nodes_dragstarted nodes_dragged nodes_dragended unpinned_def pins_ok_step)
qed

text \<open>
  At the sample page: after a tick that moves Peter to the centre and the start of a
  drag on his circle he is pinned at \<open>x = 600\<close> and is the subject of the one gesture;
  dragged to \<open>(5000, -3)\<close> he is pinned at \<open>(1175, 25)\<close>, within the viewport; after the
  end of the drag there is no gesture and no pinned node.
\<close>

theorem pinned_only_while_dragged_witness:
  "unpinned_data (Loaded \<lparr>doc_nodes = Some demo_nodes, doc_links = Some demo_links\<rparr>) \<and>
   map node_fx (nodes (run [Tick [(600, 350)], DragStart 0] demo_page)) =
     [Some 600, None, None] \<and>
   gestures (run [Tick [(600, 350)], DragStart 0] demo_page) = [0] \<and>
   pins_ok (run [Tick [(600, 350)], DragStart 0] demo_page) \<and>
   map node_fx (nodes (run [Tick [(600, 350)], DragStart 0, Drag 0 5000 (-3)] demo_page)) =
     [Some 1175, None, None] \<and>
   map node_fy (nodes (run [Tick [(600, 350)], DragStart 0, Drag 0 5000 (-3)] demo_page)) =
     [Some 25, None, None] \<and>
   fits (nodes demo_page ! 0) \<and>
   placed (nodes demo_page ! 0)
     (node_fx (nodes (dragged \<lparr>subject = 0, active = 1, event_x = 5000, event_y = -3\<rparr>
        demo_page) ! 0))
     (node_fy (nodes (dragged \<lparr>subject = 0, active = 1, event_x = 5000, event_y = -3\<rparr>
        demo_page) ! 0)) \<and>
   gestures (run [Tick [(600, 350)], DragStart 0, Drag 0 5000 (-3), DragEnd 0] demo_page) =
     [] \<and>
   list_all unpinned
     (nodes (run [Tick [(600, 350)], DragStart 0, Drag 0 5000 (-3), DragEnd 0] demo_page))"
proof -
  have d: "unpinned_data (Loaded \<lparr>doc_nodes = Some demo_nodes, doc_links = Some demo_links\<rparr>)"
    by code_simp
  have e1: "map node_fx (nodes (run [Tick [(600, 350)], DragStart 0] demo_page)) =
     [Some 600, None, None]"
    by code_simp
  have e2: "gestures (run [Tick [(600, 350)], DragStart 0] demo_page) = [0]"
    by code_simp
  have e3: "map node_fx
      (nodes (run [Tick [(600, 350)], DragStart 0, Drag 0 5000 (-3)] demo_page)) =
     [Some 1175, None, None]"
    "map node_fy
      (nodes (run [Tick [(600, 350)], DragStart 0, Drag 0 5000 (-3)] demo_page)) =
     [Some 25, None, None]"
    by code_simp+
  have e4: "gestures
      (run [Tick [(600, 350)], DragStart 0, Drag 0 5000 (-3), DragEnd 0] demo_page) = []"
    by code_simp
  have e5: "fits (nodes demo_page ! 0)"
    "subject \<lparr>subject = 0, active = 1, event_x = 5000, event_y = -3\<rparr> <
       length (nodes demo_page)"
    "subject \<lparr>subject = 0, active = 1, event_x = 5000, event_y = -3\<rparr> = 0"
    by code_simp+
  have all: "pins_ok (run es demo_page) \<and>
      (gestures (run es demo_page) = [] \<longrightarrow> list_all unpinned (nodes (run es demo_page))) \<and>
      (\<forall>ev. subject ev < length (nodes demo_page) \<longrightarrow> fits (nodes demo_page ! subject ev) \<longrightarrow>
         placed (nodes demo_page ! subject ev)
           (node_fx (nodes (dragged ev demo_page) ! subject ev))
           (node_fy (nodes (dragged ev demo_page) ! subject ev)))" for es
    using pinned_only_while_dragged[OF d, of es demo_buttons demo_tooltip]
    unfolding demo_page_def by blast
  have "placed (nodes demo_page ! 0)
     (node_fx (nodes (dragged \<lparr>subject = 0, active = 1, event_x = 5000, event_y = -3\<rparr>
        demo_page) ! 0))
     (node_fy (nodes (dragged \<lparr>subject = 0, active = 1, event_x = 5000, event_y = -3\<rparr>
        demo_page) ! 0))"
    using all[of "[]"] e5 by (metis (no_types))
  then show ?thesis
    using all[of "[Tick [(600, 350)], DragStart 0]"]
      all[of "[Tick [(600, 350)], DragStart 0, Drag 0 5000 (-3), DragEnd 0]"]
      d e1 e2 e3 e4 e5(1)
    by simp
qed

text \<open>
  The claim as written fails in two ways. In the sample data file with Peter's record
  carrying \<^verbatim>\<open>"fx": 7, "fy": 9\<close>, Peter is pinned after \<^verbatim>\<open>init\<close> and after a tick, with no
  drag gesture in progress: the script sets \<open>fx\<close> and \<open>fy\<close> to \<^verbatim>\<open>null\<close> nowhere but in
  \<^verbatim>\<open>dragended\<close>. And the node of radius 400, dragged to the centre \<open>(600, 350)\<close>, is
  pinned at \<open>fy = 400\<close>, which is above \<^verbatim>\<open>height - size\<close>, 300.
\<close>

theorem pinned_outside_drag_or_outside_viewport:
  "\<not> unpinned_data pinned_file \<and>
   loads pinned_file \<and>
   gestures (init pinned_file (start demo_buttons demo_tooltip)) = [] \<and>
   map node_fx (nodes (init pinned_file (start demo_buttons demo_tooltip))) =
     [Some 7, None, None] \<and>
   gestures (run [Tick [(600, 350)]] (init pinned_file (start demo_buttons demo_tooltip))) =
     [] \<and>
   map node_fx
     (nodes (run [Tick [(600, 350)]] (init pinned_file (start demo_buttons demo_tooltip)))) =
     [Some 7, None, None] \<and>
   \<not> pins_ok (run [Tick [(600, 350)]] (init pinned_file (start demo_buttons demo_tooltip))) \<and>
   gestures (run [DragStart 0, Drag 0 600 350] wide_page) = [0] \<and>
   node_size (nodes (run [DragStart 0, Drag 0 600 350] wide_page) ! 0) = 400 \<and>
   node_fy (nodes (run [DragStart 0, Drag 0 600 350] wide_page) ! 0) = Some 400 \<and>
   \<not> within_y (nodes (run [DragStart 0, Drag 0 600 350] wide_page) ! 0) 400"
  by code_simp

subsection \<open>Filters\<close>

lemma erase_updateButtons: "erase_filter_state (updateButtons p) = erase_filter_state p"
  by (simp add: erase_filter_state_def updateButtons_deactivated updateButtons_fields)
     (simp add: updateButtons_def Let_def)

lemma erase_filterAll: "erase_filter_state (filterAll p) = erase_filter_state p"
  by (simp add: erase_filter_state_def filterAll_def Let_def updateButtons_deactivated
      updateButtons_fields o_def)
     (simp add: updateButtons_def Let_def)

lemma erase_filterByType: "erase_filter_state (filterByType ty p) = erase_filter_state p"
  by (simp add: erase_filter_state_def filterByType_def Let_def updateButtons_deactivated
      updateButtons_fields o_def)
     (simp add: updateButtons_def Let_def)

lemma filterByType_node_sel:
  "node_sel (filterByType ty p) =
     map (\<lambda>c. c\<lparr>circle_opacity := Some
            (if node_type (nodes p ! circle_datum c) = category_name ty then 1 else 2 / 10)\<rparr>)
       (node_sel p)"
  by (simp add: filterByType_def Let_def updateButtons_fields)

lemma filterByType_label_sel:
  "label_sel (filterByType ty p) =
     map (\<lambda>t. t\<lparr>label_opacity := Some
            (if node_type (nodes p ! label_datum t) = category_name ty then 1 else 2 / 10)\<rparr>)
       (label_sel p)"
  by (simp add: filterByType_def Let_def updateButtons_fields)

lemma filterByType_link_sel:
  "link_sel (filterByType ty p) =
     map (\<lambda>l. l\<lparr>line_opacity := Some
            (if node_type (nodes p ! source (links p ! line_datum l)) = category_name ty
                \<or> node_type (nodes p ! target (links p ! line_datum l)) = category_name ty
             then 7 / 10 else 1 / 10)\<rparr>)
       (link_sel p)"
  by (simp add: filterByType_def Let_def updateButtons_fields)

text \<open>
  Claim C2. For every category tag and every page, \<^verbatim>\<open>filterByType\<close> leaves every
  circle, label and line in its place and bound to its datum, and sets its opacity: 1 on a
  circle or label whose node has the tag as its \<^verbatim>\<open>type\<close> and 0.2 on every other; 0.7 on a
  line whose link matches (the node at its source or at its target has the tag as its
  type) and 0.1 on every other.
\<close>

theorem filterByType_opacity:
  "length (node_sel (filterByType ty p)) = length (node_sel p) \<and>
   length (label_sel (filterByType ty p)) = length (label_sel p) \<and>
   length (link_sel (filterByType ty p)) = length (link_sel p) \<and>
   (\<forall>i < length (node_sel p).
      circle_datum (node_sel (filterByType ty p) ! i) = circle_datum (node_sel p ! i) \<and>
      circle_opacity (node_sel (filterByType ty p) ! i) =
        Some (if node_matches p ty (circle_datum (node_sel p ! i)) then 1 else 2 / 10)) \<and>
   (\<forall>i < length (label_sel p).
      label_datum (label_sel (filterByType ty p) ! i) = label_datum (label_sel p ! i) \<and>
      label_opacity (label_sel (filterByType ty p) ! i) =
        Some (if node_matches p ty (label_datum (label_sel p ! i)) then 1 else 2 / 10)) \<and>
   (\<forall>i < length (link_sel p).
      line_datum (link_sel (filterByType ty p) ! i) = line_datum (link_sel p ! i) \<and>
      line_opacity (link_sel (filterByType ty p) ! i) =
        Some (if link_matches p ty (line_datum (link_sel p ! i)) then 7 / 10 else 1 / 10))"
  by (simp add: filterByType_node_sel filterByType_label_sel filterByType_link_sel
      node_matches_def link_matches_def)

text \<open>
  At the sample page: the apostle filter leaves the circles of Peter and Paul at opacity
  1 and dims the circle and label of Augustine to 0.2; the doctor filter dims the line
  from Peter to Paul to 0.1 and leaves the line from Paul to Augustine at 0.7.
\<close>

theorem filterByType_opacity_witness:
  "2 < length (node_sel demo_page) \<and>
   node_matches demo_page Apostle (circle_datum (node_sel demo_page ! 0)) \<and>
   circle_opacity (node_sel (filterByType Apostle demo_page) ! 0) = Some 1 \<and>
   \<not> node_matches demo_page Apostle (circle_datum (node_sel demo_page ! 2)) \<and>
   circle_opacity (node_sel (filterByType Apostle demo_page) ! 2) = Some (2 / 10) \<and>
   2 < length (label_sel demo_page) \<and>
   \<not> node_matches demo_page Apostle (label_datum (label_sel demo_page ! 2)) \<and>
   label_opacity (label_sel (filterByType Apostle demo_page) ! 2) = Some (2 / 10) \<and>
   1 < length (link_sel demo_page) \<and>
   \<not> link_matches demo_page Doctor (line_datum (link_sel demo_page ! 0)) \<and>
   line_opacity (link_sel (filterByType Doctor demo_page) ! 0) = Some (1 / 10) \<and>
   link_matches demo_page Doctor (line_datum (link_sel demo_page ! 1)) \<and>
   line_opacity (link_sel (filterByType Doctor demo_page) ! 1) = Some (7 / 10)"
proof -
  have n: "2 < length (node_sel demo_page)" "0 < length (node_sel demo_page)"
    and t: "2 < length (label_sel demo_page)"
    and l: "1 < length (link_sel demo_page)" "0 < length (link_sel demo_page)"
    by code_simp+
  have m: "node_matches demo_page Apostle (circle_datum (node_sel demo_page ! 0))"
    "\<not> node_matches demo_page Apostle (circle_datum (node_sel demo_page ! 2))"
    "\<not> node_matches demo_page Apostle (label_datum (label_sel demo_page ! 2))"
    "\<not> link_matches demo_page Doctor (line_datum (link_sel demo_page ! 0))"
    "link_matches demo_page Doctor (line_datum (link_sel demo_page ! 1))"
    by code_simp+
  show ?thesis
    using filterByType_opacity[of Apostle demo_page] filterByType_opacity[of Doctor demo_page]
      n t l m
    by simp
qed

lemma filterAll_after_filterByType: "filterAll (filterByType ty p) = filterAll p"
proof -
  have b: "buttons (updateButtons (q\<lparr>currentFilter := ''all''\<rparr>)) =
           activate_first ''filterAll()'' (map (\<lambda>b. b\<lparr>active_class := False\<rparr>) (buttons q))"
    for q
    by (simp add: updateButtons_def Let_def)
  have d: "map (\<lambda>b. b\<lparr>active_class := False\<rparr>) (buttons (filterByType ty p)) =
           map (\<lambda>b. b\<lparr>active_class := False\<rparr>) (buttons p)"
    by (simp add: filterByType_def Let_def updateButtons_deactivated)
  show ?thesis
    unfolding filterAll_def Let_def
    apply (simp add: updateButtons_fields b d)
    apply (simp add: updateButtons_def Let_def filterByType_def o_def deactivate_activate_first)
    done
qed

lemma filterAll_after_filters: "filterAll (fold filterByType tys p) = filterAll p"
  by (induction tys arbitrary: p) (simp_all add: filterAll_after_filterByType)

text \<open>
  Claim C5. Whatever the page and whatever sequence of \<^verbatim>\<open>filterByType\<close> calls came
  before, \<^verbatim>\<open>filterAll\<close> gives the page that \<^verbatim>\<open>filterAll\<close> gives without them: every
  circle and every label has opacity 1, every line has opacity 0.7, and
  \<^verbatim>\<open>currentFilter\<close> is \<^verbatim>\<open>'all'\<close>.
\<close>

theorem filterAll_restores_visibility:
  "filterAll (fold filterByType tys p) = filterAll p \<and>
   opacity_state (filterAll (fold filterByType tys p)) =
     (replicate (length (node_sel p)) (Some 1),
      replicate (length (label_sel p)) (Some 1),
      replicate (length (link_sel p)) (Some (7 / 10))) \<and>
   currentFilter (filterAll (fold filterByType tys p)) = ''all''"
proof -
  have "opacity_state (filterAll p) =
     (replicate (length (node_sel p)) (Some 1),
      replicate (length (label_sel p)) (Some 1),
      replicate (length (link_sel p)) (Some (7 / 10)))"
    by (simp add: opacity_state_def filterAll_def Let_def updateButtons_fields o_def
        map_replicate_const)
  moreover have "currentFilter (filterAll p) = ''all''"
    by (simp add: filterAll_def Let_def updateButtons_fields)
  ultimately show ?thesis
    by (simp add: filterAll_after_filters)
qed

text \<open>
  Claim C8. \<^verbatim>\<open>filterAll\<close>, \<^verbatim>\<open>filterByType\<close> and \<^verbatim>\<open>updateButtons\<close> change nothing but the
  current filter, the \<^verbatim>\<open>active\<close> class of the buttons and the opacity of the circles,
  labels and lines: with these forgotten, the page after is the page before. In
  particular the nodes (with their \<open>x\<close>, \<open>y\<close>, \<open>fx\<close>, \<open>fy\<close>, size and type), the links
  (with their ends and type) and the \<^verbatim>\<open>onclick\<close> attributes of the buttons are the same.
\<close>

theorem filters_change_only_filter_state:
  "erase_filter_state (filterAll p) = erase_filter_state p \<and>
   erase_filter_state (filterByType ty p) = erase_filter_state p \<and>
   erase_filter_state (updateButtons p) = erase_filter_state p \<and>
   nodes (filterAll p) = nodes p \<and> links (filterAll p) = links p \<and>
   nodes (filterByType ty p) = nodes p \<and> links (filterByType ty p) = links p \<and>
   map onclick (buttons (filterAll p)) = map onclick (buttons p) \<and>
   map onclick (buttons (filterByType ty p)) = map onclick (buttons p)"
proof -
  have "nodes (filterAll p) = nodes p" "links (filterAll p) = links p"
    "nodes (filterByType ty p) = nodes p" "links (filterByType ty p) = links p"
    by (simp_all add: filterAll_def filterByType_def Let_def updateButtons_fields)
  moreover have "map onclick (buttons (filterAll p)) = map onclick (buttons p)"
    "map onclick (buttons (filterByType ty p)) = map onclick (buttons p)"
    by (simp_all add: filterAll_def filterByType_def Let_def updateButtons_onclick)
  ultimately show ?thesis
    by (simp add: erase_filterAll erase_filterByType erase_updateButtons)
qed

subsection \<open>The tooltip\<close>

lemma tooltip_handleMouseOver:
  "tooltip (handleMouseOver el ev d p) =
     \<lparr>tip_opacity = Some 1, tip_html = node_html d,
      tip_left = Some (ToString (pageX ev + 10) @ ''px''),
      tip_top = Some (ToString (pageY ev - 10) @ ''px'')\<rparr>"
  by (simp add: handleMouseOver_def)

text \<open>
  Claim C7. The tooltip that \<^verbatim>\<open>handleMouseOver\<close> leaves (its HTML, its \<^verbatim>\<open>left\<close> and
  \<^verbatim>\<open>top\<close> and its opacity) is the same for any two hovered nodes that agree on name,
  feast day, birth year, death year, location, patronage and description and any two
  pointer events that agree on \<^verbatim>\<open>pageX\<close> and \<^verbatim>\<open>pageY\<close>, whatever the two pages, the two
  hovered circles and the other fields of the two nodes are.
\<close>

theorem tooltip_depends_on_fields_and_pointer:
  assumes "name d = name d'" and "feastDay d = feastDay d'"
    and "birthYear d = birthYear d'" and "deathYear d = deathYear d'"
    and "location d = location d'" and "patronage d = patronage d'"
    and "description d = description d'"
    and "pageX ev = pageX ev'" and "pageY ev = pageY ev'"
  shows "tooltip (handleMouseOver el ev d p) = tooltip (handleMouseOver el' ev' d' p')"
  using assms by (simp add: tooltip_handleMouseOver node_html_def name_text_def)

text \<open>
  Peter hovered on the sample page, and a node with Peter's seven fields and another
  identifier, type, size and position hovered on another page after other events: the two
  tooltips are the same, placed at \<open>110px\<close> and \<open>190px\<close>.
\<close>

theorem tooltip_depends_on_fields_and_pointer_witness:
  "name (demo_nodes ! 0) = name peter_elsewhere \<and>
   feastDay (demo_nodes ! 0) = feastDay peter_elsewhere \<and>
   birthYear (demo_nodes ! 0) = birthYear peter_elsewhere \<and>
   deathYear (demo_nodes ! 0) = deathYear peter_elsewhere \<and>
   location (demo_nodes ! 0) = location peter_elsewhere \<and>
   patronage (demo_nodes ! 0) = patronage peter_elsewhere \<and>
   description (demo_nodes ! 0) = description peter_elsewhere \<and>
   node_id (demo_nodes ! 0) \<noteq> node_id peter_elsewhere \<and>
   node_size (demo_nodes ! 0) \<noteq> node_size peter_elsewhere \<and>
   tooltip (handleMouseOver 0 \<lparr>pageX = 100, pageY = 200\<rparr> (demo_nodes ! 0) demo_page) =
     tooltip (handleMouseOver 2 \<lparr>pageX = 100, pageY = 200\<rparr> peter_elsewhere
       (run [ClickFilterByType Doctor, Tick [(1, 2)], LinkMouseOver 0 3 4] wide_page)) \<and>
   tip_left (tooltip (handleMouseOver 0 \<lparr>pageX = 100, pageY = 200\<rparr> (demo_nodes ! 0) demo_page)) =
     Some ''110px'' \<and>
   tip_top (tooltip (handleMouseOver 0 \<lparr>pageX = 100, pageY = 200\<rparr> (demo_nodes ! 0) demo_page)) =
     Some ''190px''"
proof -
  have f: "name (demo_nodes ! 0) = name peter_elsewhere"
    "feastDay (demo_nodes ! 0) = feastDay peter_elsewhere"
    "birthYear (demo_nodes ! 0) = birthYear peter_elsewhere"
    "deathYear (demo_nodes ! 0) = deathYear peter_elsewhere"
    "location (demo_nodes ! 0) = location peter_elsewhere"
    "patronage (demo_nodes ! 0) = patronage peter_elsewhere"
    "description (demo_nodes ! 0) = description peter_elsewhere"
    by (simp_all add: peter_elsewhere_def)
  have g: "node_id (demo_nodes ! 0) \<noteq> node_id peter_elsewhere"
    "node_size (demo_nodes ! 0) \<noteq> node_size peter_elsewhere"
    by (simp_all add: peter_elsewhere_def demo_nodes_def)
  have e: "pageX \<lparr>pageX = 100, pageY = 200\<rparr> = pageX \<lparr>pageX = 100, pageY = 200\<rparr>"
    "pageY \<lparr>pageX = 100, pageY = 200\<rparr> = pageY \<lparr>pageX = 100, pageY = 200\<rparr>"
    by simp_all
  have px: "ToString (100 + 10) = ''110''" "ToString (200 - 10) = ''190''"
    by code_simp+
  show ?thesis
    using tooltip_depends_on_fields_and_pointer[OF f e, of 0 demo_page 2
        "run [ClickFilterByType Doctor, Tick [(1, 2)], LinkMouseOver 0 3 4] wide_page"]
      f g px
    by (simp add: tooltip_handleMouseOver)
qed

subsection \<open>Relationship details\<close>

lemma splits_iff: "(s, t) \<in> set (splits k) \<longleftrightarrow> s @ CHR ''-'' # t = k"
proof (induction k arbitrary: s)
  case Nil
  then show ?case by simp
next
  case step: (Cons c cs)
  show ?case
  proof (cases s)
    case Nil
    then show ?thesis by (auto simp: step.IH)
  next
    case (Cons a s')
    have "(a # s', t) \<in> set (splits (c # cs)) \<longleftrightarrow> a = c \<and> (s', t) \<in> set (splits cs)"
      by force
    then show ?thesis
      using Cons by (simp add: step.IH)
  qed
qed

text \<open>
  The table holds no pair of saints in both orders: by running through its 52 keys and
  the places where each can be cut.
\<close>

lemma details_one_order: "one_order details"
  by code_simp

lemma details_values_nonempty: "list_all (\<lambda>(k, v). v \<noteq> []) details"
  by code_simp

lemma details_not_both:
  "map_of details (s @ ''-'' @ t) = None \<or> map_of details (t @ ''-'' @ s) = None"
proof (cases "map_of details (s @ ''-'' @ t)")
  case None
  then show ?thesis by simp
next
  case (Some v)
  then have "(s @ ''-'' @ t, v) \<in> set details"
    by (rule map_of_SomeD)
  moreover have "(s, t) \<in> set (splits (s @ ''-'' @ t))"
    by (simp add: splits_iff)
  ultimately have "map_of details (t @ ''-'' @ s) = None"
    using details_one_order unfolding one_order_def list_all_iff by fastforce
  then show ?thesis by simp
qed

lemma details_value_nonempty: "map_of details k = Some v \<Longrightarrow> v \<noteq> []"
  using details_values_nonempty by (auto simp: list_all_iff dest: map_of_SomeD)

lemma relationship_detail_eq: "relationship_detail s t = detail_of s t"
  unfolding relationship_detail_def detail_of_def Let_def js_or_def or_else_def
  by (auto split: option.splits dest: details_value_nonempty)

lemma detail_of_sym: "detail_of s t = detail_of t s"
  using details_not_both[of s t] unfolding detail_of_def
  by (auto split: option.splits)

lemma detail_of_nonempty: "detail_of s t \<noteq> []"
  unfolding detail_of_def
  by (auto split: option.splits dest: details_value_nonempty)

text \<open>
  Claim C10. \<^verbatim>\<open>getRelationshipDetail\<close> returns a string for every link: the entry of the
  table under \<^verbatim>\<open>source-target\<close>, else the entry under \<^verbatim>\<open>target-source\<close>, else the
  fallback text, and never the empty string. With the link's source and target swapped it
  returns the same string, and no two identifiers are a key of the table in both orders.
\<close>

theorem getRelationshipDetail_total_symmetric:
  "getRelationshipDetail ns (d\<lparr>source := target d, target := source d\<rparr>) =
     getRelationshipDetail ns d \<and>
   getRelationshipDetail ns d = detail_of (node_id (ns ! source d)) (node_id (ns ! target d)) \<and>
   getRelationshipDetail ns d \<noteq> [] \<and>
   (map_of details (s @ ''-'' @ t) = None \<or> map_of details (t @ ''-'' @ s) = None)"
  using detail_of_sym[of "node_id (ns ! source d)" "node_id (ns ! target d)"]
    detail_of_nonempty details_not_both[of s t]
  unfolding getRelationshipDetail_def relationship_detail_eq
  by simp

text \<open>
  On the sample page: the link from Peter to Paul and the link from Paul to Peter both
  give the text of the key \<^verbatim>\<open>peter-paul\<close>; Paul and Augustine are in the table as
  \<^verbatim>\<open>paul-augustine\<close>; Peter and Augustine are not in the table and get the fallback.
\<close>

lemma getRelationshipDetail_samples:
  "getRelationshipDetail demo_nodes \<lparr>source = 0, target = 1, link_type = ''colleague''\<rparr> =
     ''Both apostles who worked together in the early Church'' \<and>
   getRelationshipDetail demo_nodes \<lparr>source = 1, target = 0, link_type = ''colleague''\<rparr> =
     ''Both apostles who worked together in the early Church'' \<and>
   getRelationshipDetail demo_nodes \<lparr>source = 2, target = 1, link_type = ''influence''\<rparr> =
     ''Augustine was deeply influenced by Paul's letters'' \<and>
   getRelationshipDetail demo_nodes \<lparr>source = 0, target = 2, link_type = ''influence''\<rparr> =
     ''These saints shared important connections in Church history''"
  by code_simp

end
